theory Spec2Isabelle
  imports Main "HOL-Library.AList"
begin

section \<open>Python strings and dictionaries\<close>

text \<open>
  A Python \<^verbatim>\<open>str\<close> is a sequence of Unicode code points, so it is modelled as a list of
  natural numbers (the bullet glyph U+2022 is one element, as it is for \<^verbatim>\<open>re\<close>).
  ASCII literals of the source are written with \<open>lit\<close>. A \<^verbatim>\<open>dict\<close> is an association
  list in insertion order; \<^verbatim>\<open>d[k] = v\<close> is \<open>AList.update\<close> (the value is replaced in
  place when the key exists, the pair is appended otherwise).
\<close>

type_synonym pystr = "nat list"

type_synonym dict = "(pystr \<times> pystr) list"

definition lit :: "string \<Rightarrow> pystr" where
  "lit s = map of_char s"

text \<open>\<^verbatim>\<open>str(n)\<close> for a non-negative integer: its decimal digits.\<close>

fun str_nat :: "nat \<Rightarrow> pystr" where
  "str_nat n = (if n < 10 then [48 + n] else str_nat (n div 10) @ [48 + n mod 10])"

declare str_nat.simps [simp del]

text \<open>
  \<^verbatim>\<open>str.isspace\<close> on one character, which is also what \<^verbatim>\<open>\s\<close> matches in a
  \<^verbatim>\<open>str\<close> pattern and what \<^verbatim>\<open>str.strip()\<close> removes: the Unicode whitespace code points.
\<close>

definition isspace :: "nat \<Rightarrow> bool" where
  "isspace c \<longleftrightarrow>
     (9 \<le> c \<and> c \<le> 13) \<or> (28 \<le> c \<and> c \<le> 32) \<or> c = 133 \<or> c = 160 \<or> c = 5760 \<or>
     (8192 \<le> c \<and> c \<le> 8202) \<or> c = 8232 \<or> c = 8233 \<or> c = 8239 \<or> c = 8287 \<or> c = 12288"

text \<open>\<^verbatim>\<open>text.split('\n')\<close>: never empty, one more piece than there are newlines.\<close>

fun split_nl :: "pystr \<Rightarrow> pystr list" where
  "split_nl [] = [[]]"
| "split_nl (c # cs) =
     (if c = 10 then [] # split_nl cs
      else (case split_nl cs of [] \<Rightarrow> [[c]] | l # ls \<Rightarrow> (c # l) # ls))"

text \<open>\<^verbatim>\<open>'\n'.join(parts)\<close>.\<close>

fun join_nl :: "pystr list \<Rightarrow> pystr" where
  "join_nl [] = []"
| "join_nl [l] = l"
| "join_nl (l # ls) = l @ [10] @ join_nl ls"

section \<open>Option Indexer: \<^verbatim>\<open>_format_with_numbers\<close>\<close>

text \<open>
  The content of a model response: a string, or a list of content blocks. A block is an
  object with a \<^verbatim>\<open>text\<close> attribute, a dict with a \<^verbatim>\<open>'text'\<close> key, a plain string, or
  anything else (which the extraction loop skips).
\<close>

datatype block = TextAttr pystr | TextDict pystr | StrBlock pystr | OtherBlock

datatype content = Str pystr | Blocks "block list"

fun text_parts :: "block list \<Rightarrow> pystr list" where
  "text_parts [] = []"
| "text_parts (TextAttr t # bs) = t # text_parts bs"
| "text_parts (TextDict t # bs) = t # text_parts bs"
| "text_parts (StrBlock t # bs) = t # text_parts bs"
| "text_parts (OtherBlock # bs) = text_parts bs"

fun content_text :: "content \<Rightarrow> pystr" where
  "content_text (Str t) = t"
| "content_text (Blocks bs) = join_nl (text_parts bs)"

text \<open>The character class \<^verbatim>\<open>[\<bullet>\-\*]\<close>: U+2022, hyphen-minus, asterisk.\<close>

definition is_bullet_glyph :: "nat \<Rightarrow> bool" where
  "is_bullet_glyph c \<longleftrightarrow> c = 8226 \<or> c = 45 \<or> c = 42"

text \<open>
  \<^verbatim>\<open>re.match(r'^(\s*)[\<bullet>\-\*]\s+(.+)$', line)\<close> on a line without a newline (the lines
  come from \<open>split_nl\<close>), giving groups 1 and 2. The greedy \<^verbatim>\<open>\s*\<close> takes the whole leading
  whitespace, since the next character must be a glyph. The greedy \<^verbatim>\<open>\s+\<close> takes the
  whole whitespace run after the glyph; when that run reaches the end of the line the
  matcher backtracks by one character, which \<^verbatim>\<open>(.+)\<close> then takes as the content.
\<close>

definition bullet_match :: "pystr \<Rightarrow> (pystr \<times> pystr) option" where
  "bullet_match line =
     (let indent = takeWhile isspace line in
      case dropWhile isspace line of
        [] \<Rightarrow> None
      | g # rest \<Rightarrow>
          if \<not> is_bullet_glyph g then None
          else let ws = takeWhile isspace rest; content = dropWhile isspace rest in
            if ws = [] then None
            else if content \<noteq> [] then Some (indent, content)
            else if 2 \<le> length ws then Some (indent, [last ws])
            else None)"

text \<open>
  The loop over the lines, with the loop variables \<^verbatim>\<open>option_num\<close>,
  \<^verbatim>\<open>self.last_options\<close> and \<^verbatim>\<open>formatted_lines\<close> as accumulators.
\<close>

fun format_lines :: "pystr list \<Rightarrow> nat \<Rightarrow> dict \<Rightarrow> pystr list \<Rightarrow> nat \<times> dict \<times> pystr list" where
  "format_lines [] option_num last_options formatted_lines =
     (option_num, last_options, formatted_lines)"
| "format_lines (line # lines) option_num last_options formatted_lines =
     (case bullet_match line of
        Some (indent, content) \<Rightarrow>
          format_lines lines (option_num + 1)
            (AList.update (str_nat option_num) content last_options)
            (formatted_lines @ [indent @ lit ''**'' @ str_nat option_num @ lit ''.** '' @ content])
      | None \<Rightarrow> format_lines lines option_num last_options (formatted_lines @ [line]))"

text \<open>
  \<^verbatim>\<open>_format_with_numbers\<close>. The first argument is \<^verbatim>\<open>self.last_options\<close> on entry, the
  second component of the result is \<^verbatim>\<open>self.last_options\<close> on return.
\<close>

definition format_with_numbers :: "dict \<Rightarrow> content \<Rightarrow> pystr \<times> dict" where
  "format_with_numbers old_options text =
     (let lines = split_nl (content_text text);
          (option_num, last_options, formatted_lines) = format_lines lines 1 [] [];
          result = join_nl formatted_lines
      in (if last_options \<noteq> []
          then result @ [10, 10] @ lit ''*Tip: Type a number (1-'' @
               str_nat (length last_options) @ lit '') to select an option*''
          else result,
          last_options))"


section \<open>Further string operations used by the agent\<close>

text \<open>\<^verbatim>\<open>s.strip()\<close>: leading and trailing whitespace removed.\<close>

definition strip :: "pystr \<Rightarrow> pystr" where
  "strip s = rev (dropWhile isspace (rev (dropWhile isspace s)))"

text \<open>\<^verbatim>\<open>p in s\<close> for strings: \<open>p\<close> occurs in \<open>s\<close> as a contiguous substring.\<close>

fun contains :: "pystr \<Rightarrow> pystr \<Rightarrow> bool" where
  "contains p [] = (p = [])"
| "contains p (c # cs) = (take (length p) (c # cs) = p \<or> contains p cs)"

text \<open>
  \<^verbatim>\<open>str.isdigit\<close> and \<^verbatim>\<open>str.lower\<close> follow the Unicode character database. Their
  behaviour on ASCII is written out; the rest of the database is a parameter: which
  non-ASCII code points count as digits, and the lower-casing of a string that has a
  non-ASCII character (it is not character-wise there).
\<close>

record unicode =
  uc_isdigit :: "nat \<Rightarrow> bool"
  uc_lower :: "pystr \<Rightarrow> pystr"

definition isdigit_char :: "unicode \<Rightarrow> nat \<Rightarrow> bool" where
  "isdigit_char U c = (if c < 128 then 48 \<le> c \<and> c \<le> 57 else uc_isdigit U c)"

definition isdigit :: "unicode \<Rightarrow> pystr \<Rightarrow> bool" where
  "isdigit U s \<longleftrightarrow> s \<noteq> [] \<and> list_all (isdigit_char U) s"

definition lower_ascii :: "nat \<Rightarrow> nat" where
  "lower_ascii c = (if 65 \<le> c \<and> c \<le> 90 then c + 32 else c)"

definition lower :: "unicode \<Rightarrow> pystr \<Rightarrow> pystr" where
  "lower U s = (if list_all (\<lambda>c. c < 128) s then map lower_ascii s else uc_lower U s)"

section \<open>Console markup\<close>

text \<open>
  \<^verbatim>\<open>console.print\<close> of a string renders it as console markup (the console of the source
  is made with the defaults, which have markup on), and so does the printing of a
  \<^verbatim>\<open>Panel\<close> for its title and for a body that is a string. Rendering raises
  \<^verbatim>\<open>MarkupError\<close>, an \<^verbatim>\<open>Exception\<close>, on a closing tag that closes nothing. What follows is
  \<^verbatim>\<open>rich.markup.render\<close> as far as it decides that, giving the message of the error.
  Two functions of the library are parameters: \<^verbatim>\<open>Style.normalize\<close>, and the error (if any)
  of evaluating the parameters of a tag whose name starts with \<^verbatim>\<open>@\<close>.
\<close>

record rich =
  normalize :: "pystr \<Rightarrow> pystr"
  meta_error :: "pystr \<Rightarrow> pystr option"

text \<open>An open tag on the style stack: its normalized name and its parameters.\<close>

type_synonym tag = "pystr \<times> pystr option"

text \<open>
  The tag pattern \<^verbatim>\<open>\[([a-z#/@][^[]*?)]\<close> after the opening bracket: a first character
  of the class, then the shortest run without \<^verbatim>\<open>[\<close> that ends at a \<^verbatim>\<open>]\<close>. The result is the
  text between the brackets.
\<close>

definition tag_start :: "nat \<Rightarrow> bool" where
  "tag_start c \<longleftrightarrow> (97 \<le> c \<and> c \<le> 122) \<or> c = 35 \<or> c = 47 \<or> c = 64"

definition tag_at :: "pystr \<Rightarrow> pystr option" where
  "tag_at s =
     (case s of
        c # rest \<Rightarrow>
          if tag_start c then
            (case dropWhile (\<lambda>x. x \<noteq> 91 \<and> x \<noteq> 93) rest of
               d # _ \<Rightarrow> if d = 93 then Some (c # takeWhile (\<lambda>x. x \<noteq> 91 \<and> x \<noteq> 93) rest) else None
             | [] \<Rightarrow> None)
          else None
      | [] \<Rightarrow> None)"

text \<open>\<^verbatim>\<open>pop_style\<close>: the topmost open tag with the name is taken out of the stack.\<close>

fun pop_style :: "pystr \<Rightarrow> tag list \<Rightarrow> (tag \<times> tag list) option" where
  "pop_style style_name [] = None"
| "pop_style style_name (t # ts) =
     (if fst t = style_name then Some (t, ts)
      else (case pop_style style_name ts of
              None \<Rightarrow> None
            | Some (found, ts') \<Rightarrow> Some (found, t # ts')))"

text \<open>After a tag was closed: the parameters of an \<^verbatim>\<open>@\<close> tag are evaluated.\<close>

definition closed_tag :: "rich \<Rightarrow> tag \<Rightarrow> tag list \<Rightarrow> pystr + tag list" where
  "closed_tag R open_tag style_stack =
     (case snd open_tag of
        Some parameters \<Rightarrow>
          if take 1 (fst open_tag) = [64] \<and> parameters \<noteq> []
          then (case meta_error R parameters of Some m \<Rightarrow> Inl m | None \<Rightarrow> Inr style_stack)
          else Inr style_stack
      | None \<Rightarrow> Inr style_stack)"

text \<open>
  One tag, found at \<open>position\<close>: its text is split at the first \<^verbatim>\<open>=\<close> into name and
  parameters; a name that starts with \<^verbatim>\<open>/\<close> closes (the named tag, or the topmost one when
  no name is left), any other name opens.
\<close>

definition render_tag :: "rich \<Rightarrow> tag list \<Rightarrow> nat \<Rightarrow> pystr \<Rightarrow> pystr + tag list" where
  "render_tag R style_stack position tag_text =
     (let name = takeWhile (\<lambda>x. x \<noteq> 61) tag_text;
          parameters = (case dropWhile (\<lambda>x. x \<noteq> 61) tag_text of [] \<Rightarrow> None | _ # p \<Rightarrow> Some p)
      in if take 1 name = [47] then
           (let style_name = strip (drop 1 name) in
            if style_name \<noteq> [] then
              (case pop_style (normalize R style_name) style_stack of
                 None \<Rightarrow>
                   Inl (lit ''closing tag '' @ [39, 91] @ tag_text @ [93, 39] @ lit '' at position '' @
                        str_nat position @ lit '' doesn'' @ [39] @ lit ''t match any open tag'')
               | Some (open_tag, style_stack') \<Rightarrow> closed_tag R open_tag style_stack')
            else
              (case style_stack of
                 [] \<Rightarrow>
                   Inl (lit ''closing tag '' @ [39] @ lit ''[/]'' @ [39] @ lit '' at position '' @
                        str_nat position @ lit '' has nothing to close'')
               | open_tag # style_stack' \<Rightarrow> closed_tag R open_tag style_stack'))
         else Inr ((normalize R name, parameters) # style_stack))"

text \<open>
  The scan of the markup, character by character: \<open>backslashes\<close> counts the backslashes
  just before the current character (an odd number in front of a tag escapes it), and
  \<open>skip\<close> is what is left of a tag that was found.
\<close>

fun scan :: "rich \<Rightarrow> tag list \<Rightarrow> nat \<Rightarrow> nat \<Rightarrow> nat \<Rightarrow> pystr \<Rightarrow> pystr option" where
  "scan R style_stack position backslashes skip [] = None"
| "scan R style_stack position backslashes skip (c # cs) =
     (if 0 < skip then scan R style_stack (position + 1) 0 (skip - 1) cs
      else if c = 92 then scan R style_stack (position + 1) (backslashes + 1) 0 cs
      else if c = 91 then
        (case tag_at cs of
           None \<Rightarrow> scan R style_stack (position + 1) 0 0 cs
         | Some tag_text \<Rightarrow>
             if odd backslashes then scan R style_stack (position + 1) 0 (length tag_text + 1) cs
             else (case render_tag R style_stack position tag_text of
                     Inl m \<Rightarrow> Some m
                   | Inr style_stack' \<Rightarrow>
                       scan R style_stack' (position + 1) 0 (length tag_text + 1) cs))
      else scan R style_stack (position + 1) 0 0 cs)"

text \<open>The message of the \<^verbatim>\<open>MarkupError\<close> that rendering the markup raises, if it raises.\<close>

definition markup_error :: "rich \<Rightarrow> pystr \<Rightarrow> pystr option" where
  "markup_error R markup = scan R [] 0 0 0 markup"

section \<open>Messages, tools and what a call can raise\<close>

text \<open>
  What a Python call can raise: an \<^verbatim>\<open>Exception\<close> (with its \<^verbatim>\<open>str(e)\<close>), a
  \<^verbatim>\<open>KeyboardInterrupt\<close>, or another \<^verbatim>\<open>BaseException\<close> that is not an \<^verbatim>\<open>Exception\<close>
  (\<^verbatim>\<open>SystemExit\<close>, or the \<^verbatim>\<open>CancelledError\<close> by which an interrupt reaches a coroutine).
  The handlers of the source tell them apart: \<^verbatim>\<open>except Exception\<close> catches only the first.
\<close>

datatype raised = Exception pystr | KeyboardInterrupt | OtherBaseException

type_synonym args = "(pystr \<times> pystr) list"

datatype tool_call = ToolCall (tc_name: pystr) (tc_args: args) (tc_id: pystr)

text \<open>
  The message classes of the source. \<open>ToolMessage content tool_call_id\<close>; an
  \<open>AIMessage\<close> carries its content and its \<^verbatim>\<open>tool_calls\<close>.
\<close>

datatype message =
    SystemMessage pystr
  | HumanMessage pystr
  | AIMessage content "tool_call list"
  | ToolMessage pystr pystr

text \<open>
  A tool of \<^verbatim>\<open>self.tools\<close>. \<open>invoke\<close> and \<open>ainvoke\<close> give \<^verbatim>\<open>str(result)\<close> or what the
  call raises. \<open>is_mcp\<close> stands for the test \<^verbatim>\<open>tool in self.mcp_tools\<close>: it is set on
  exactly the tools that \<^verbatim>\<open>get_mcp_tools\<close> returned.
\<close>

record tool =
  name :: pystr
  description :: pystr
  is_mcp :: bool
  invoke :: "args \<Rightarrow> raised + pystr"
  ainvoke :: "args \<Rightarrow> raised + pystr"

text \<open>
  The collaborators of the agent: the Unicode database; the markup functions of the
  console library; the model bound to the tools (\<^verbatim>\<open>self.llm_with_tools.invoke\<close>, giving
  the content and the tool calls of the \<open>AIMessage\<close> it returns); \<^verbatim>\<open>str(tool_args)\<close>;
  \<^verbatim>\<open>traceback.format_exc()\<close> for what was raised; \<^verbatim>\<open>os.getcwd\<close> and \<^verbatim>\<open>os.path.join\<close>;
  the \<^verbatim>\<open>push_folder\<close> tool of \<^verbatim>\<open>tool.github_direct\<close> (it talks to the file system and
  to GitHub); the tool sources, the environment variable and the MCP client read by
  \<^verbatim>\<open>get_mcp_tools\<close>; the messages that the checkpoint database holds for the thread at
  start-up; and, of the graph library, the number of node executions after which a run
  is given up when the caller sets no \<^verbatim>\<open>recursion_limit\<close>, and the text of the
  \<^verbatim>\<open>GraphRecursionError\<close> (an \<^verbatim>\<open>Exception\<close>) for a limit.
\<close>

record env =
  ucd :: unicode
  rich :: rich
  llm_invoke :: "message list \<Rightarrow> raised + content \<times> tool_call list"
  str_of_args :: "args \<Rightarrow> pystr"
  format_exc :: "raised \<Rightarrow> pystr"
  getcwd :: pystr
  path_join :: "pystr \<Rightarrow> pystr \<Rightarrow> pystr"
  push_folder_invoke :: "args \<Rightarrow> raised + pystr"
  get_local_tools :: "tool list"
  get_github_tools :: "tool list"
  GITHUB_TOKEN :: "pystr option"
  mcp_client_get_tools :: "raised + tool list"
  checkpoint :: "message list"
  default_recursion_limit :: nat
  recursion_error :: "nat \<Rightarrow> pystr"

text \<open>
  What \<^verbatim>\<open>self.console.print(markup)\<close> raises, if it raises, and the same for the printing
  of \<^verbatim>\<open>Panel(body, title=title)\<close>, which renders the title first.
\<close>

definition print_raises :: "env \<Rightarrow> pystr \<Rightarrow> raised option" where
  "print_raises E markup = map_option Exception (markup_error (rich E) markup)"

definition panel_raises :: "env \<Rightarrow> pystr \<Rightarrow> pystr \<Rightarrow> raised option" where
  "panel_raises E body title =
     (case print_raises E title of Some e \<Rightarrow> Some e | None \<Rightarrow> print_raises E body)"

section \<open>The nodes of the graph\<close>

definition system_message :: message where
  "system_message = SystemMessage
     (lit ''You MUST call tools. NEVER just talk. For '' @ [39] @ lit ''push folder'' @ [39] @
      lit '': call push_folder(owner, repo, folder_path, branch, message). For '' @ [39] @
      lit ''push file'' @ [39] @
      lit '': call quick_push_file(owner, repo, file_path, branch, message). '' @
      lit ''DO NOT ask questions, CALL THE TOOL NOW.'')"

definition IndexError :: raised where
  "IndexError = Exception (lit ''list index out of range'')"

text \<open>\<^verbatim>\<open>AttributeError\<close> for an object of a class that has no such attribute.\<close>

definition AttributeError :: "pystr \<Rightarrow> pystr \<Rightarrow> raised" where
  "AttributeError class_name attribute =
     Exception ([39] @ class_name @ [39] @ lit '' object has no attribute '' @
                [39] @ attribute @ [39])"

fun class_name :: "message \<Rightarrow> pystr" where
  "class_name (SystemMessage c) = lit ''SystemMessage''"
| "class_name (HumanMessage c) = lit ''HumanMessage''"
| "class_name (AIMessage c tcs) = lit ''AIMessage''"
| "class_name (ToolMessage c i) = lit ''ToolMessage''"

fun is_SystemMessage :: "message \<Rightarrow> bool" where
  "is_SystemMessage (SystemMessage c) = True"
| "is_SystemMessage m = False"

text \<open>
  \<^verbatim>\<open>model_response\<close>, first part: the list handed to the model gets the system message.
  \<^verbatim>\<open>messages[0]\<close> on an empty list raises.
\<close>

definition add_system_message :: "message list \<Rightarrow> raised + message list" where
  "add_system_message messages =
     (if length messages = 1 then Inr (system_message # messages)
      else (case messages of
              [] \<Rightarrow> Inl IndexError
            | m # ms \<Rightarrow>
                if is_SystemMessage m then Inr (system_message # ms)
                else Inr (system_message # messages)))"

text \<open>
  \<^verbatim>\<open>model_response\<close>, second part: \<^verbatim>\<open>last_msg = messages[-1].content\<close> and the rewrite
  of the last message when its lower-cased content has one of the four words. A content
  that is a list of blocks has no \<^verbatim>\<open>lower\<close>.
\<close>

fun message_content :: "message \<Rightarrow> content" where
  "message_content (SystemMessage c) = Str c"
| "message_content (HumanMessage c) = Str c"
| "message_content (AIMessage c tcs) = c"
| "message_content (ToolMessage c i) = Str c"

definition force_tool_words :: "pystr list" where
  "force_tool_words = [lit ''push'', lit ''upload'', lit ''github'', lit ''repo'']"

definition force_tool_use :: "unicode \<Rightarrow> message list \<Rightarrow> raised + message list" where
  "force_tool_use U messages =
     (case message_content (last messages) of
        Blocks bs \<Rightarrow> Inl (AttributeError (lit ''list'') (lit ''lower''))
      | Str last_msg \<Rightarrow>
          if list_ex (\<lambda>word. contains word (lower U last_msg)) force_tool_words
          then Inr (butlast messages @
                 [HumanMessage (last_msg @ [10, 10] @
                    lit ''[SYSTEM: You MUST call the appropriate tool NOW. Do not respond with text.]'')])
          else Inr messages)"

text \<open>The truth value of \<^verbatim>\<open>response.content\<close>: a non-empty string or a non-empty list.\<close>

fun truthy :: "content \<Rightarrow> bool" where
  "truthy (Str s) = (s \<noteq> [])"
| "truthy (Blocks bs) = (bs \<noteq> [])"

text \<open>
  \<^verbatim>\<open>model_response\<close>: from \<^verbatim>\<open>self.last_options\<close> and \<^verbatim>\<open>state.messages\<close> to the new
  \<^verbatim>\<open>self.last_options\<close> and the returned update \<^verbatim>\<open>{"messages": [response]}\<close>. An
  exception of the model call is not caught here. The response is shown as Markdown in
  a panel with a fixed title, so no text of the response is rendered as markup.
\<close>

definition model_response :: "env \<Rightarrow> dict \<Rightarrow> message list \<Rightarrow> raised + dict \<times> message list" where
  "model_response E last_options state_messages =
     (case add_system_message state_messages of
        Inl e \<Rightarrow> Inl e
      | Inr messages \<Rightarrow>
          (case force_tool_use (ucd E) messages of
             Inl e \<Rightarrow> Inl e
           | Inr messages \<Rightarrow>
               (case llm_invoke E messages of
                  Inl e \<Rightarrow> Inl e
                | Inr (response_content, tool_calls) \<Rightarrow>
                    Inr (if truthy response_content
                         then snd (format_with_numbers last_options response_content)
                         else last_options,
                         [AIMessage response_content tool_calls]))))"

text \<open>
  \<^verbatim>\<open>tool_use\<close>. The lines it prints, each with a text of the request or of the tool
  between markup tags:
\<close>

definition executing_line :: "pystr \<Rightarrow> pystr" where
  "executing_line tool_name =
     [10] @ lit ''[bold yellow]Executing tool:[/bold yellow] [magenta]'' @ tool_name @
     lit ''[/magenta]''"

definition arguments_line :: "env \<Rightarrow> args \<Rightarrow> pystr" where
  "arguments_line E tool_args =
     lit ''[dim]Arguments: '' @ str_of_args E tool_args @ lit ''[/dim]'' @ [10]"

definition result_title :: "pystr \<Rightarrow> pystr" where
  "result_title tool_name =
     lit ''[bold green]Tool Result: '' @ tool_name @ lit ''[/bold green]''"

definition error_line :: "pystr \<Rightarrow> pystr" where
  "error_line error_msg = lit ''[bold red]'' @ error_msg @ lit ''[/bold red]''"

definition call_tool :: "tool \<Rightarrow> args \<Rightarrow> raised + pystr" where
  "call_tool t tool_args = (if is_mcp t then ainvoke t tool_args else invoke t tool_args)"

text \<open>
  The body of the \<^verbatim>\<open>try\<close> for a tool that was found, up to the printing of the result
  panel: the invocation, then the panel with \<^verbatim>\<open>str(result)\<close> and the title.
\<close>

definition invoke_and_show :: "env \<Rightarrow> tool \<Rightarrow> tool_call \<Rightarrow> raised + pystr" where
  "invoke_and_show E t tool_call =
     (case call_tool t (tc_args tool_call) of
        Inl e \<Rightarrow> Inl e
      | Inr result \<Rightarrow>
          (case panel_raises E result (result_title (tc_name tool_call)) of
             Some e \<Rightarrow> Inl e
           | None \<Rightarrow> Inr result))"

text \<open>
  The loop over \<^verbatim>\<open>tool_calls\<close> with the accumulator \<^verbatim>\<open>tool_messages\<close>. The two lines at
  the head of the loop body are printed outside the \<^verbatim>\<open>try\<close>; the error lines are printed
  inside the \<^verbatim>\<open>except\<close> block and in the \<^verbatim>\<open>else\<close> branch, where nothing catches what
  they raise. The lookup is \<^verbatim>\<open>next((t for t in self.tools if t.name == tool_name), None)\<close>.
\<close>

fun tool_use_loop ::
  "env \<Rightarrow> tool list \<Rightarrow> tool_call list \<Rightarrow> message list \<Rightarrow> raised + message list" where
  "tool_use_loop E tools [] tool_messages = Inr tool_messages"
| "tool_use_loop E tools (tool_call # rest) tool_messages =
     (case print_raises E (executing_line (tc_name tool_call)) of
        Some e \<Rightarrow> Inl e
      | None \<Rightarrow>
     (case print_raises E (arguments_line E (tc_args tool_call)) of
        Some e \<Rightarrow> Inl e
      | None \<Rightarrow>
     (case find (\<lambda>t. name t = tc_name tool_call) tools of
        Some t \<Rightarrow>
          (case invoke_and_show E t tool_call of
             Inr result \<Rightarrow>
               tool_use_loop E tools rest
                 (tool_messages @ [ToolMessage result (tc_id tool_call)])
           | Inl (Exception e) \<Rightarrow>
               (case print_raises E (error_line (lit ''Tool error: '' @ e)) of
                  Some e' \<Rightarrow> Inl e'
                | None \<Rightarrow>
                    tool_use_loop E tools rest
                      (tool_messages @
                       [ToolMessage (lit ''Tool error: '' @ e) (tc_id tool_call)]))
           | Inl KeyboardInterrupt \<Rightarrow> Inl KeyboardInterrupt
           | Inl OtherBaseException \<Rightarrow> Inl OtherBaseException)
      | None \<Rightarrow>
          (case print_raises E
                  (error_line (lit ''Tool '' @ tc_name tool_call @ lit '' not found'')) of
             Some e \<Rightarrow> Inl e
           | None \<Rightarrow>
               tool_use_loop E tools rest
                 (tool_messages @
                  [ToolMessage (lit ''Tool '' @ tc_name tool_call @ lit '' not found'')
                     (tc_id tool_call)])))))"

definition tool_use :: "env \<Rightarrow> tool list \<Rightarrow> message list \<Rightarrow> raised + message list" where
  "tool_use E tools state_messages =
     (case state_messages of
        [] \<Rightarrow> Inl IndexError
      | _ # _ \<Rightarrow>
          (case last state_messages of
             AIMessage c tool_calls \<Rightarrow> tool_use_loop E tools tool_calls []
           | m \<Rightarrow> Inl (AttributeError (class_name m) (lit ''tool_calls''))))"

section \<open>The graph\<close>

text \<open>
  The nodes registered by \<^verbatim>\<open>_setup_workflow\<close> and the end marker. \<^verbatim>\<open>check_tool_use\<close>
  returns the name of the next node; only an \<open>AIMessage\<close> has \<^verbatim>\<open>tool_calls\<close>.
\<close>

datatype node = model_response_node | tool_use_node | END

definition entry_point :: node where
  "entry_point = model_response_node"

definition check_tool_use :: "message list \<Rightarrow> raised + node" where
  "check_tool_use state_messages =
     (case state_messages of
        [] \<Rightarrow> Inl IndexError
      | _ # _ \<Rightarrow>
          (case last state_messages of
             AIMessage c tool_calls \<Rightarrow> if tool_calls \<noteq> [] then Inr tool_use_node else Inr END
           | _ \<Rightarrow> Inr END))"

text \<open>
  The edges: the fixed edge from \<^verbatim>\<open>tool_use\<close> to \<^verbatim>\<open>model_response\<close>, and the
  conditional edges out of \<^verbatim>\<open>model_response\<close>, decided by \<^verbatim>\<open>check_tool_use\<close> on the
  state after the node's update.
\<close>

definition next_node :: "node \<Rightarrow> message list \<Rightarrow> raised + node" where
  "next_node n state_messages =
     (case n of
        tool_use_node \<Rightarrow> Inr model_response_node
      | model_response_node \<Rightarrow> check_tool_use state_messages
      | END \<Rightarrow> Inr END)"

text \<open>
  The reducer \<^verbatim>\<open>add_messages\<close> of the state's \<^verbatim>\<open>messages\<close> field, for messages that
  are new to the state: they are appended.
\<close>

definition add_messages :: "message list \<Rightarrow> message list \<Rightarrow> message list" where
  "add_messages left right = left @ right"

text \<open>
  One step of the compiled graph at node \<open>n\<close>: the node runs, its update is merged into
  the state, the edge is followed.
\<close>

definition graph_step ::
  "env \<Rightarrow> tool list \<Rightarrow> node \<Rightarrow> dict \<Rightarrow> message list \<Rightarrow> raised + node \<times> dict \<times> message list" where
  "graph_step E tools n last_options state_messages =
     (case n of
        model_response_node \<Rightarrow>
          (case model_response E last_options state_messages of
             Inl e \<Rightarrow> Inl e
           | Inr (last_options', update) \<Rightarrow>
               (let state_messages' = add_messages state_messages update in
                case next_node n state_messages' of
                  Inl e \<Rightarrow> Inl e
                | Inr n' \<Rightarrow> Inr (n', last_options', state_messages')))
      | tool_use_node \<Rightarrow>
          (case tool_use E tools state_messages of
             Inl e \<Rightarrow> Inl e
           | Inr update \<Rightarrow>
               (let state_messages' = add_messages state_messages update in
                case next_node n state_messages' of
                  Inl e \<Rightarrow> Inl e
                | Inr n' \<Rightarrow> Inr (n', last_options, state_messages')))
      | END \<Rightarrow> Inr (END, last_options, state_messages))"

text \<open>
  The \<^verbatim>\<open>config\<close> that \<^verbatim>\<open>run\<close> passes to \<^verbatim>\<open>ainvoke\<close>, and the step limit that the compiled
  graph takes from a config: the value under \<^verbatim>\<open>recursion_limit\<close>, or the library's default.
  \<^verbatim>\<open>compile\<close> is given the checkpointer and nothing else.
\<close>

datatype config_value = Text pystr | Number nat | Mapping "(pystr \<times> config_value) list"

definition thread_id :: pystr where
  "thread_id = lit ''default_session''"

definition config :: "(pystr \<times> config_value) list" where
  "config = [(lit ''configurable'', Mapping [(lit ''thread_id'', Text thread_id)])]"

definition recursion_limit :: "env \<Rightarrow> (pystr \<times> config_value) list \<Rightarrow> nat" where
  "recursion_limit E cfg =
     (case map_of cfg (lit ''recursion_limit'') of
        Some (Number n) \<Rightarrow> n
      | _ \<Rightarrow> default_recursion_limit E)"

text \<open>
  A run of the graph under a step limit: the steps are taken until \<open>END\<close>; when the
  allowed node executions are used up before that, the run is given up with the
  library's \<^verbatim>\<open>GraphRecursionError\<close>; what a node raises ends the run as well.
  \<open>graph_loop\<close> has the limit and what is left of it.
\<close>

datatype run_result =
    Done dict "message list"
  | Aborted raised dict "message list"

fun graph_loop ::
  "nat \<Rightarrow> nat \<Rightarrow> env \<Rightarrow> tool list \<Rightarrow> node \<Rightarrow> dict \<Rightarrow> message list \<Rightarrow> run_result" where
  "graph_loop limit left E tools END last_options state_messages =
     Done last_options state_messages"
| "graph_loop limit 0 E tools n last_options state_messages =
     Aborted (Exception (recursion_error E limit)) last_options state_messages"
| "graph_loop limit (Suc left) E tools n last_options state_messages =
     (case graph_step E tools n last_options state_messages of
        Inl e \<Rightarrow> Aborted e last_options state_messages
      | Inr (n', last_options', state_messages') \<Rightarrow>
          graph_loop limit left E tools n' last_options' state_messages')"

text \<open>\<^verbatim>\<open>self.agent.ainvoke(input, config=cfg)\<close> on the state that the thread has.\<close>

definition agent_ainvoke ::
  "env \<Rightarrow> tool list \<Rightarrow> (pystr \<times> config_value) list \<Rightarrow> dict \<Rightarrow> message list \<Rightarrow> message list \<Rightarrow>
   run_result" where
  "agent_ainvoke E tools cfg last_options thread_messages input_messages =
     graph_loop (recursion_limit E cfg) (recursion_limit E cfg) E tools entry_point last_options
       (add_messages thread_messages input_messages)"

section \<open>The agent and its session loop\<close>

text \<open>
  What the session loop shows on the console. The rendering inside the nodes is present
  only as what it can raise, and the rendering at start-up is left out.
\<close>

datatype event =
    Print pystr
  | Panel pystr pystr
  | DisplayHelp
  | DisplayTools

text \<open>
  The attributes of \<^verbatim>\<open>CodeAssistantAgent\<close> that change. \<open>conversation\<close> is the state
  that the checkpointer holds for \<^verbatim>\<open>thread_id\<close>.
\<close>

record agent =
  tools :: "tool list"
  mcp_tools :: "tool list"
  last_options :: dict
  conversation :: "message list"
  console :: "event list"

definition emit :: "event \<Rightarrow> agent \<Rightarrow> agent" where
  "emit ev a = a\<lparr>console := console a @ [ev]\<rparr>"

text \<open>\<^verbatim>\<open>self.console.print(markup)\<close> and the printing of a panel, as steps of the loop.\<close>

definition console_print :: "env \<Rightarrow> pystr \<Rightarrow> agent \<Rightarrow> raised + agent" where
  "console_print E markup a =
     (case print_raises E markup of Some e \<Rightarrow> Inl e | None \<Rightarrow> Inr (emit (Print markup) a))"

definition console_print_panel :: "env \<Rightarrow> pystr \<Rightarrow> pystr \<Rightarrow> agent \<Rightarrow> raised + agent" where
  "console_print_panel E body title a =
     (case panel_raises E body title of
        Some e \<Rightarrow> Inl e
      | None \<Rightarrow> Inr (emit (Panel body title) a))"

text \<open>\<^verbatim>\<open>get_mcp_tools\<close> of \<^verbatim>\<open>tool/mcp_tools.py\<close>: no token or an \<^verbatim>\<open>Exception\<close> gives no tools.\<close>

definition get_mcp_tools :: "env \<Rightarrow> raised + tool list" where
  "get_mcp_tools E =
     (case GITHUB_TOKEN E of
        None \<Rightarrow> Inr []
      | Some github_token \<Rightarrow>
          if github_token = [] then Inr []
          else (case mcp_client_get_tools E of
                  Inr ts \<Rightarrow> Inr ts
                | Inl (Exception e) \<Rightarrow> Inr []
                | Inl KeyboardInterrupt \<Rightarrow> Inl KeyboardInterrupt
                | Inl OtherBaseException \<Rightarrow> Inl OtherBaseException))"

text \<open>\<^verbatim>\<open>__init__\<close>, \<^verbatim>\<open>_display_quick_start\<close> and \<^verbatim>\<open>initialize\<close>.\<close>

definition init :: "env \<Rightarrow> agent" where
  "init E = \<lparr>tools = get_local_tools E @ get_github_tools E, mcp_tools = [],
             last_options = [], conversation = checkpoint E, console = []\<rparr>"

definition quick_start_options :: dict where
  "quick_start_options =
     [(lit ''1'', lit ''List all files in current directory''),
      (lit ''2'', lit ''Show available tools''),
      (lit ''3'', lit ''Run the tests''),
      (lit ''4'', lit ''Read the README.md file''),
      (lit ''5'', lit ''Search for code in the project'')]"

definition display_quick_start :: "agent \<Rightarrow> agent" where
  "display_quick_start a = a\<lparr>last_options := quick_start_options\<rparr>"

definition initialize :: "env \<Rightarrow> agent \<Rightarrow> raised + agent" where
  "initialize E a =
     (case get_mcp_tools E of
        Inr ms \<Rightarrow>
          Inr (display_quick_start
                (if ms \<noteq> [] then a\<lparr>mcp_tools := ms, tools := tools a @ ms\<rparr>
                 else a\<lparr>mcp_tools := ms\<rparr>))
      | Inl (Exception e) \<Rightarrow> Inr (display_quick_start a)
      | Inl KeyboardInterrupt \<Rightarrow> Inl KeyboardInterrupt
      | Inl OtherBaseException \<Rightarrow> Inl OtherBaseException)"

text \<open>What \<^verbatim>\<open>Prompt.ask\<close> gives: a line, or one of the two exceptions the loop expects.\<close>

datatype prompt = Line pystr | EOFError | PromptInterrupt

definition goodbye :: event where
  "goodbye = Print ([10] @ lit ''[bold cyan]Goodbye![/bold cyan]'' @ [10])"

text \<open>
  \<^verbatim>\<open>_display_tools\<close>: the tree of the tools in three branches. Every label is rendered as
  markup when the tree is printed, from the root down, branch by branch; the labels of
  the tools have the name and the description of the tool in them.
\<close>

definition tool_label :: "pystr \<Rightarrow> tool \<Rightarrow> pystr" where
  "tool_label colour t =
     [91] @ colour @ [93, 8226, 32] @ name t @ lit ''[/'' @ colour @ lit '']: '' @ description t"

definition is_github_tool :: "unicode \<Rightarrow> tool \<Rightarrow> bool" where
  "is_github_tool U t \<longleftrightarrow>
     contains (lit ''github'') (lower U (name t)) \<or> contains (lit ''repo'') (lower U (name t))"

definition tree_labels :: "env \<Rightarrow> agent \<Rightarrow> pystr list" where
  "tree_labels E a =
     [lit ''[bold cyan]Available Tools[/bold cyan]'', lit ''[yellow]Local Tools[/yellow]''] @
     map (tool_label (lit ''yellow''))
       (filter (\<lambda>t. \<not> is_mcp t \<and> \<not> is_github_tool (ucd E) t) (tools a)) @
     [lit ''[green]GitHub Tools[/green]''] @
     map (tool_label (lit ''green''))
       (filter (\<lambda>t. \<not> is_mcp t \<and> is_github_tool (ucd E) t) (tools a)) @
     [lit ''[magenta]MCP Tools[/magenta]''] @
     map (tool_label (lit ''magenta'')) (filter is_mcp (tools a))"

definition display_tools :: "env \<Rightarrow> agent \<Rightarrow> raised + agent" where
  "display_tools E a =
     (case List.map_filter (print_raises E) (tree_labels E a) of
        e # _ \<Rightarrow> Inl e
      | [] \<Rightarrow> Inr (emit DisplayTools a))"

text \<open>
  Lines 364 to 368 of \<^verbatim>\<open>run\<close>: the option that a numeric input selects, if it selects one.
\<close>

definition resolve_option :: "unicode \<Rightarrow> dict \<Rightarrow> pystr \<Rightarrow> pystr option" where
  "resolve_option U opts user_input =
     (if isdigit U (strip user_input) then map_of opts (strip user_input) else None)"

text \<open>The arguments of the direct call of \<^verbatim>\<open>push_folder\<close>.\<close>

definition folder_path_of :: "env \<Rightarrow> pystr \<Rightarrow> pystr" where
  "folder_path_of E user_input =
     (let folder_name =
            (if contains (lit ''codeassistent'') (lower (ucd E) user_input)
             then lit ''codeAssistent'' else lit ''.'')
      in if folder_name \<noteq> lit ''.'' then path_join E (getcwd E) folder_name else getcwd E)"

definition push_folder_args :: "pystr \<Rightarrow> args" where
  "push_folder_args folder_path =
     [(lit ''owner'', lit ''Abhitheshek''),
      (lit ''repo'', lit ''terminalcodeAssistant''),
      (lit ''folder_path'', folder_path),
      (lit ''branch'', lit ''main''),
      (lit ''message'', lit ''Upload codeAssistent folder'')]"

datatype control = Continue | Break

datatype body = Normal control agent | Raise raised agent

text \<open>
  Lines 370 to 396 of \<^verbatim>\<open>run\<close>: the direct handler, taken when the lower-cased input has
  both \<^verbatim>\<open>push\<close> and \<^verbatim>\<open>folder\<close>. It prints the fixed line and the line with the folder
  path, invokes the tool, prints the panel with \<^verbatim>\<open>str(result)\<close> and ends with
  \<^verbatim>\<open>continue\<close>.
\<close>

definition wants_push_folder :: "unicode \<Rightarrow> pystr \<Rightarrow> bool" where
  "wants_push_folder U user_input \<longleftrightarrow>
     contains (lit ''push'') (lower U user_input) \<and> contains (lit ''folder'') (lower U user_input)"

definition direct_push_folder :: "env \<Rightarrow> agent \<Rightarrow> pystr \<Rightarrow> body" where
  "direct_push_folder E a0 user_input =
     (let folder_path = folder_path_of E user_input;
          a = emit (Print ([10] @ lit ''[bold yellow]Executing:[/bold yellow] push_folder'')) a0
      in case console_print E (lit ''[dim]Folder: '' @ folder_path @ lit ''[/dim]'' @ [10]) a of
           Inl e \<Rightarrow> Raise e a
         | Inr a \<Rightarrow>
             (case push_folder_invoke E (push_folder_args folder_path) of
                Inl e \<Rightarrow> Raise e a
              | Inr result \<Rightarrow>
                  (case console_print_panel E result (lit ''[bold green]Result[/bold green]'') a of
                     Inl e \<Rightarrow> Raise e a
                   | Inr a \<Rightarrow> Normal Continue a)))"

text \<open>
  Lines 398 to 405: the human message is made and the workflow is invoked on the thread,
  with the \<open>config\<close> of line 331. The state the run had reached is what the checkpointer
  keeps, also when the run raises.
\<close>

definition invoke_workflow :: "env \<Rightarrow> agent \<Rightarrow> pystr \<Rightarrow> body" where
  "invoke_workflow E a user_input =
     (let human_message = HumanMessage user_input
      in case agent_ainvoke E (tools a) config (last_options a) (conversation a) [human_message] of
           Done opts msgs \<Rightarrow> Normal Continue (a\<lparr>last_options := opts, conversation := msgs\<rparr>)
         | Aborted e opts msgs \<Rightarrow> Raise e (a\<lparr>last_options := opts, conversation := msgs\<rparr>))"

definition dispatch :: "env \<Rightarrow> agent \<Rightarrow> pystr \<Rightarrow> body" where
  "dispatch E a user_input =
     (if wants_push_folder (ucd E) user_input then direct_push_folder E a user_input
      else invoke_workflow E a user_input)"

text \<open>
  The body of the \<^verbatim>\<open>try\<close> in the loop of \<^verbatim>\<open>run\<close>, for one answer of the prompt: it ends
  normally (with \<^verbatim>\<open>continue\<close>, by falling through, or with \<^verbatim>\<open>break\<close>), or it raises.
  The line with the selected option is printed before the input is replaced.
\<close>

definition is_command :: "unicode \<Rightarrow> pystr \<Rightarrow> bool" where
  "is_command U user_input \<longleftrightarrow>
     lower U user_input \<in> set [lit ''exit'', lit ''quit'', lit ''q''] \<or>
     lower U user_input = lit ''help'' \<or> lower U user_input = lit ''tools''"

definition run_body :: "env \<Rightarrow> agent \<Rightarrow> prompt \<Rightarrow> body" where
  "run_body E a0 answer =
     (let a = emit (Print []) a0 in
      case answer of
        EOFError \<Rightarrow> Normal Break (emit goodbye a)
      | PromptInterrupt \<Rightarrow> Normal Break (emit goodbye a)
      | Line user_input \<Rightarrow>
          if user_input = [] \<or> strip user_input = [] then Normal Continue a
          else if lower (ucd E) user_input \<in> set [lit ''exit'', lit ''quit'', lit ''q'']
            then Normal Break (emit goodbye a)
          else if lower (ucd E) user_input = lit ''help''
            then Normal Continue (emit DisplayHelp a)
          else if lower (ucd E) user_input = lit ''tools''
            then (case display_tools E a of Inl e \<Rightarrow> Raise e a | Inr a \<Rightarrow> Normal Continue a)
          else
            (case resolve_option (ucd E) (last_options a) user_input of
               Some selected_option \<Rightarrow>
                 (case console_print E
                         (lit ''[green]Selected:[/green] '' @ selected_option @ [10]) a of
                    Inl e \<Rightarrow> Raise e a
                  | Inr a \<Rightarrow> dispatch E a selected_option)
             | None \<Rightarrow> dispatch E a user_input))"

text \<open>
  The handlers of the \<^verbatim>\<open>try\<close>: \<^verbatim>\<open>except KeyboardInterrupt\<close> leaves the loop;
  \<^verbatim>\<open>except Exception\<close> prints the line with \<^verbatim>\<open>str(e)\<close>, the line with the traceback and
  the notice, and goes on to the next round; anything else leaves \<^verbatim>\<open>run\<close> as an
  exception, and so does what a print inside the \<^verbatim>\<open>except\<close> block raises.
\<close>

datatype iteration = Next agent | Stop agent | Propagate raised agent

definition continuing :: event where
  "continuing = Print (lit ''[yellow]Continuing... Type '' @ [39] @ lit ''exit'' @ [39] @
                       lit '' to quit[/yellow]'')"

fun handlers :: "env \<Rightarrow> body \<Rightarrow> iteration" where
  "handlers E (Normal Continue a) = Next a"
| "handlers E (Normal Break a) = Stop a"
| "handlers E (Raise KeyboardInterrupt a) = Stop (emit goodbye a)"
| "handlers E (Raise (Exception e) a) =
     (case console_print E (lit ''[bold red]Error: '' @ e @ lit ''[/bold red]'') a of
        Inl e' \<Rightarrow> Propagate e' a
      | Inr a \<Rightarrow>
          (case console_print E (lit ''[dim]'' @ format_exc E (Exception e) @ lit ''[/dim]'') a of
             Inl e' \<Rightarrow> Propagate e' a
           | Inr a \<Rightarrow> Next (emit continuing a)))"
| "handlers E (Raise OtherBaseException a) = Propagate OtherBaseException a"

definition run_iteration :: "env \<Rightarrow> agent \<Rightarrow> prompt \<Rightarrow> iteration" where
  "run_iteration E a answer = handlers E (run_body E a answer)"

text \<open>
  \<^verbatim>\<open>run\<close>, the \<^verbatim>\<open>while True\<close> loop, over the answers that the prompt gives. When they
  are used up the loop stands at the prompt again.
\<close>

datatype outcome = Exited agent | AtPrompt agent | Crashed raised agent

fun run :: "env \<Rightarrow> agent \<Rightarrow> prompt list \<Rightarrow> outcome" where
  "run E a [] = AtPrompt a"
| "run E a (answer # answers) =
     (case run_iteration E a answer of
        Next a' \<Rightarrow> run E a' answers
      | Stop a' \<Rightarrow> Exited a'
      | Propagate e a' \<Rightarrow> Crashed e a')"

section \<open>Notions used in the statements\<close>

text \<open>The number that a string of decimal digits denotes.\<close>

definition digits_val :: "pystr \<Rightarrow> nat" where
  "digits_val ds = foldl (\<lambda>a d. 10 * a + (d - 48)) 0 ds"

text \<open>The lines as \<open>format_lines\<close> leaves them, counting from \<open>n\<close>, without accumulators.\<close>

fun numbered :: "nat \<Rightarrow> pystr list \<Rightarrow> pystr list" where
  "numbered n [] = []"
| "numbered n (l # ls) =
     (case bullet_match l of
        None \<Rightarrow> l # numbered n ls
      | Some (indent, c) \<Rightarrow>
          (indent @ lit ''**'' @ str_nat n @ lit ''.** '' @ c) # numbered (Suc n) ls)"

text \<open>The \<^verbatim>\<open>tool_call_id\<close> of a message, if it is a tool message.\<close>

fun tool_result_id :: "message \<Rightarrow> pystr option" where
  "tool_result_id (ToolMessage c i) = Some i"
| "tool_result_id m = None"

text \<open>
  Every request of every \<open>AIMessage\<close> in the list is answered: the message is followed at
  once by one tool message for each of its requests, with the ids of the requests, in
  their order.
\<close>

fun answered :: "message list \<Rightarrow> bool" where
  "answered [] = True"
| "answered (AIMessage c tcs # ms) =
     (map tool_result_id (take (length tcs) ms) = map (\<lambda>tc. Some (tc_id tc)) tcs \<and> answered ms)"
| "answered (m # ms) = answered ms"

text \<open>The message \<open>m\<close> is a tool message with the id of the request \<open>tc\<close>.\<close>

definition answers :: "tool_call \<Rightarrow> message \<Rightarrow> bool" where
  "answers tc m \<longleftrightarrow> tool_result_id m = Some (tc_id tc)"

text \<open>The input as the rest of the loop sees it, after lines 364 to 368.\<close>

definition resolved :: "unicode \<Rightarrow> dict \<Rightarrow> pystr \<Rightarrow> pystr" where
  "resolved U opts user_input =
     (case resolve_option U opts user_input of Some selected_option \<Rightarrow> selected_option
      | None \<Rightarrow> user_input)"

fun agent_of :: "iteration \<Rightarrow> agent" where
  "agent_of (Next a) = a"
| "agent_of (Stop a) = a"
| "agent_of (Propagate e a) = a"

text \<open>
  What holds of the messages that a run has added so far when it stands at node \<open>n\<close>:
  before \<^verbatim>\<open>tool_use\<close> only the requests of the last message are open.
\<close>

definition run_inv :: "node \<Rightarrow> message list \<Rightarrow> bool" where
  "run_inv n added =
     (case n of
        tool_use_node \<Rightarrow> (\<exists>pre c tcs. added = pre @ [AIMessage c tcs] \<and> answered pre)
      | _ \<Rightarrow> answered added)"

section \<open>Sample collaborators\<close>

text \<open>
  A Unicode database with no non-ASCII digits. Markup functions that agree with the
  library on the names used here: a name that is no style is stripped and lower-cased,
  and the style names of the source are in normal form already. The text of a dictionary
  of strings without quotes or escapes in them.
\<close>

definition sample_unicode :: unicode where
  "sample_unicode = \<lparr>uc_isdigit = (\<lambda>c. False), uc_lower = (\<lambda>s. s)\<rparr>"

definition sample_rich :: rich where
  "sample_rich = \<lparr>normalize = (\<lambda>s. map lower_ascii (strip s)), meta_error = (\<lambda>p. None)\<rparr>"

fun sample_items :: "args \<Rightarrow> pystr" where
  "sample_items [] = []"
| "sample_items [(k, v)] = [39] @ k @ [39] @ lit '': '' @ [39] @ v @ [39]"
| "sample_items ((k, v) # kvs) =
     [39] @ k @ [39] @ lit '': '' @ [39] @ v @ [39] @ lit '', '' @ sample_items kvs"

definition sample_str_of_args :: "args \<Rightarrow> pystr" where
  "sample_str_of_args a = lit ''{'' @ sample_items a @ lit ''}''"

definition sample_format_exc :: "raised \<Rightarrow> pystr" where
  "sample_format_exc e =
     (case e of
        Exception m \<Rightarrow>
          lit ''Traceback (most recent call last):'' @ [10] @ lit ''Exception: '' @ m @ [10]
      | _ \<Rightarrow> [])"

text \<open>
  Three tools: a local one that reads a file (one of the files has a closing tag in its
  text), a local one whose error text has a closing tag, and an MCP one that fails.
\<close>

definition read_file_tool :: tool where
  "read_file_tool = \<lparr>name = lit ''read_file'', description = lit ''Read a file'', is_mcp = False,
     invoke = (\<lambda>a. if map_of a (lit ''path'') = Some (lit ''notes.txt'')
                    then Inr (lit ''see [/x] here'') else Inr (lit ''print(1)'')),
     ainvoke = (\<lambda>a. Inl (Exception (lit ''not async'')))\<rparr>"

definition lint_tool :: tool where
  "lint_tool = \<lparr>name = lit ''lint'', description = lit ''Check the style'', is_mcp = False,
     invoke = (\<lambda>a. Inl (Exception (lit ''bad [/x]''))),
     ainvoke = (\<lambda>a. Inl (Exception (lit ''not async'')))\<rparr>"

definition run_tests_tool :: tool where
  "run_tests_tool = \<lparr>name = lit ''run_tests'', description = lit ''Run the tests'', is_mcp = True,
     invoke = (\<lambda>a. Inr (lit ''unused'')),
     ainvoke = (\<lambda>a. Inl (Exception (lit ''exit code 1'')))\<rparr>"

text \<open>
  A model that first asks for three tools (one of them unknown) and then answers with a
  bullet list, a model that never stops asking, a model whose backend times out, and a
  model whose backend fails with a closing tag in the text of the error.
\<close>

definition sample_calls :: "tool_call list" where
  "sample_calls =
     [ToolCall (lit ''read_file'') [(lit ''path'', lit ''main.py'')] (lit ''call_1''),
      ToolCall (lit ''deploy'') [] (lit ''call_2''),
      ToolCall (lit ''run_tests'') [] (lit ''call_3'')]"

definition sample_answer :: pystr where
  "sample_answer = lit ''Next steps:'' @ [10] @ lit ''- Commit the change'' @ [10] @
     lit ''  * Push the folder'' @ [10] @ lit ''Done.''"

fun sample_llm :: "message list \<Rightarrow> raised + content \<times> tool_call list" where
  "sample_llm msgs =
     (case last msgs of
        HumanMessage c \<Rightarrow> Inr (Str [], sample_calls)
      | _ \<Rightarrow> Inr (Str sample_answer, []))"


definition timeout_llm :: "message list \<Rightarrow> raised + content \<times> tool_call list" where
  "timeout_llm msgs = Inl (Exception (lit ''504 Deadline Exceeded''))"

definition failing_llm :: "message list \<Rightarrow> raised + content \<times> tool_call list" where
  "failing_llm msgs = Inl (Exception (lit ''429 quota exceeded [/v1/models]''))"

definition sample_env :: env where
  "sample_env = \<lparr>ucd = sample_unicode, rich = sample_rich, llm_invoke = sample_llm,
     str_of_args = sample_str_of_args, format_exc = sample_format_exc,
     getcwd = lit ''/work'', path_join = (\<lambda>a b. a @ lit ''/'' @ b),
     push_folder_invoke = (\<lambda>a. Inr (lit ''Uploaded 3 files'')),
     get_local_tools = [read_file_tool], get_github_tools = [],
     GITHUB_TOKEN = Some (lit ''token''), mcp_client_get_tools = Inr [run_tests_tool],
     checkpoint = [], default_recursion_limit = 25,
     recursion_error = (\<lambda>n. lit ''Recursion limit of '' @ str_nat n @
                            lit '' reached without hitting a stop condition.'')\<rparr>"


definition timeout_env :: env where
  "timeout_env = sample_env\<lparr>llm_invoke := timeout_llm\<rparr>"

definition failing_env :: env where
  "failing_env = sample_env\<lparr>llm_invoke := failing_llm\<rparr>"


text \<open>
  The agent after start-up, and the agent after a response of the model that listed
  two options with a path in brackets.
\<close>

definition sample_agent :: agent where
  "sample_agent = \<lparr>tools = [read_file_tool, run_tests_tool], mcp_tools = [run_tests_tool],
     last_options = quick_start_options, conversation = [], console = []\<rparr>"

definition bracket_options :: dict where
  "bracket_options = [(lit ''1'', lit ''Clean [/tmp]''), (lit ''2'', lit ''Push folder [/tmp]'')]"

definition bracket_agent :: agent where
  "bracket_agent = sample_agent\<lparr>last_options := bracket_options\<rparr>"

section \<open>The Option Indexer\<close>

subsection \<open>The pattern\<close>

text \<open>
  \<open>bullet_match\<close> finds a match exactly on the lines that the pattern describes: leading
  whitespace, a glyph, at least one whitespace character, and at least one more character.
\<close>

lemma glyph_not_space: "is_bullet_glyph g \<Longrightarrow> \<not> isspace g"
  by (auto simp: is_bullet_glyph_def isspace_def)

lemma bullet_match_sound:
  assumes "bullet_match line = Some (ind, c)"
  shows "\<exists>g ws. line = ind @ g # ws @ c \<and> list_all isspace ind \<and> is_bullet_glyph g \<and>
           ws \<noteq> [] \<and> list_all isspace ws \<and> c \<noteq> []"
proof -
  obtain g rest where dw: "dropWhile isspace line = g # rest"
    using assms by (auto simp: bullet_match_def Let_def split: list.splits)
  have ind: "ind = takeWhile isspace line"
    using assms dw by (auto simp: bullet_match_def Let_def split: if_splits)
  have g: "is_bullet_glyph g"
    using assms dw by (auto simp: bullet_match_def Let_def split: if_splits)
  have line: "line = ind @ g # rest"
    using ind dw takeWhile_dropWhile_id[of isspace line] by simp
  have sp: "list_all isspace ind"
    unfolding ind list_all_iff using set_takeWhileD by fastforce
  let ?ws = "takeWhile isspace rest"
  let ?ct = "dropWhile isspace rest"
  have wsne: "?ws \<noteq> []"
    using assms dw g by (auto simp: bullet_match_def Let_def split: if_splits)
  have wssp: "list_all isspace ?ws"
    unfolding list_all_iff using set_takeWhileD by fastforce
  show ?thesis
  proof (cases "?ct = []")
    case False
    then have "c = ?ct"
      using assms dw g wsne by (auto simp: bullet_match_def Let_def split: if_splits)
    then have "line = ind @ g # ?ws @ c" using line by simp
    with sp g wsne wssp False \<open>c = ?ct\<close> show ?thesis by blast
  next
    case True
    then have c: "c = [last ?ws]" and len: "2 \<le> length ?ws"
      using assms dw g wsne by (auto simp: bullet_match_def Let_def split: if_splits)
    have "?ws = rest" using True by (simp add: takeWhile_eq_all_conv)
    then have rest: "rest = ?ws" by (rule sym)
    have "?ws = butlast ?ws @ [last ?ws]" using wsne by simp
    then have l2: "line = ind @ g # butlast ?ws @ c" using line rest c by metis
    have b1: "butlast ?ws \<noteq> []" using len by (cases ?ws) auto
    have b2: "list_all isspace (butlast ?ws)"
      using wssp unfolding list_all_iff by (meson in_set_butlastD)
    from l2 sp g b1 b2 c show ?thesis by blast
  qed
qed

lemma bullet_match_complete:
  assumes "line = ind @ g # ws @ c" "list_all isspace ind" "is_bullet_glyph g"
    "ws \<noteq> []" "list_all isspace ws" "c \<noteq> []"
  shows "\<exists>c'. bullet_match line = Some (ind, c')"
proof -
  have ng: "\<not> isspace g" using assms(3) by (rule glyph_not_space)
  have tw: "takeWhile isspace line = ind"
    using assms(1,2) ng by (simp add: list_all_iff takeWhile_tail)
  have dw: "dropWhile isspace line = g # ws @ c"
    using assms(1,2) ng by (simp add: list_all_iff dropWhile_append3)
  have tws: "takeWhile isspace (ws @ c) = ws @ takeWhile isspace c"
    using assms(5) by (simp add: list_all_iff)
  have dws: "dropWhile isspace (ws @ c) = dropWhile isspace c"
    using assms(5) by (simp add: list_all_iff)
  have len: "dropWhile isspace c = [] \<Longrightarrow> 2 \<le> length (ws @ takeWhile isspace c)"
  proof -
    assume "dropWhile isspace c = []"
    then have "takeWhile isspace c = c" using takeWhile_dropWhile_id[of isspace c] by simp
    then show ?thesis using assms(4,6) by (cases ws; cases c) auto
  qed
  show ?thesis
    using tw dw tws dws len assms(3,4)
    by (auto simp: bullet_match_def Let_def)
qed

subsection \<open>Numbering\<close>

lemma digits_val_str_nat: "digits_val (str_nat n) = n"
proof (induction n rule: str_nat.induct)
  case (1 n)
  show ?case
  proof (cases "n < 10")
    case True
    then show ?thesis by (simp add: str_nat.simps digits_val_def)
  next
    case False
    with 1 have "digits_val (str_nat (n div 10)) = n div 10" by simp
    with False show ?thesis
      by (subst str_nat.simps) (simp add: digits_val_def)
  qed
qed

lemma str_nat_inj: "str_nat m = str_nat n \<Longrightarrow> m = n"
  by (metis digits_val_str_nat)

lemma str_nat_fresh: "str_nat n \<notin> set (map str_nat [k..<n])"
proof
  assume "str_nat n \<in> set (map str_nat [k..<n])"
  then obtain x where "x \<in> set [k..<n]" and "str_nat n = str_nat x" by auto
  then show False using str_nat_inj[of n x] by simp
qed

lemma update_fresh: "k \<notin> fst ` set al \<Longrightarrow> AList.update k v al = al @ [(k, v)]"
  by (induction al) auto

lemma format_lines_eq:
  "1 \<le> n \<Longrightarrow> map fst opts = map str_nat [1..<n] \<Longrightarrow>
   format_lines ls n opts acc =
     (n + length (List.map_filter bullet_match ls),
      opts @ zip (map str_nat [n..<n + length (List.map_filter bullet_match ls)])
                 (map snd (List.map_filter bullet_match ls)),
      acc @ numbered n ls)"
proof (induction ls arbitrary: n opts acc)
  case Nil
  then show ?case by simp
next
  case (Cons l ls)
  show ?case
  proof (cases "bullet_match l")
    case None
    with Cons show ?thesis by simp
  next
    case (Some p)
    obtain ind c where p: "p = (ind, c)" by (cases p)
    have fresh: "str_nat n \<notin> fst ` set opts"
      using Cons.prems(2) str_nat_fresh[of n 1] by (metis set_map)
    have upd: "AList.update (str_nat n) c opts = opts @ [(str_nat n, c)]"
      using fresh by (rule update_fresh)
    have keys: "map fst (opts @ [(str_nat n, c)]) = map str_nat [1..<Suc n]"
      using Cons.prems by simp
    have ih: "format_lines ls (Suc n) (opts @ [(str_nat n, c)]) acc' =
      (Suc n + length (List.map_filter bullet_match ls),
       (opts @ [(str_nat n, c)]) @ zip (map str_nat [Suc n..<Suc n + length (List.map_filter bullet_match ls)])
                 (map snd (List.map_filter bullet_match ls)),
       acc' @ numbered (Suc n) ls)" for acc'
      using Cons.IH[of "Suc n" "opts @ [(str_nat n, c)]" acc'] keys by simp
    have up: "[n..<n + Suc m] = n # [Suc n..<Suc n + m]" for m
      by (simp add: upt_conv_Cons del: upt_Suc)
    show ?thesis
      using Some p upd ih up by (simp del: upt_Suc)
  qed
qed

lemma numbered_length: "length (numbered n ls) = length ls"
  by (induction ls arbitrary: n) (auto split: option.splits)

lemma numbered_nth:
  "i < length ls \<Longrightarrow>
   numbered n ls ! i =
     (case bullet_match (ls ! i) of
        None \<Rightarrow> ls ! i
      | Some (indent, c) \<Rightarrow>
          indent @ lit ''**'' @ str_nat (n + length (List.map_filter bullet_match (take i ls))) @
          lit ''.** '' @ c)"
proof (induction ls arbitrary: n i)
  case Nil
  then show ?case by simp
next
  case (Cons l ls)
  show ?case
  proof (cases i)
    case 0
    then show ?thesis by (simp split: option.splits)
  next
    case (Suc j)
    with Cons.prems have j: "j < length ls" by simp
    show ?thesis
      using Suc Cons.IH[OF j] by (simp split: option.splits)
  qed
qed

lemma format_with_numbers_eq:
  "format_with_numbers old_options body =
     (join_nl (numbered 1 (split_nl (content_text body))) @
        (if List.map_filter bullet_match (split_nl (content_text body)) = [] then []
         else [10, 10] @ lit ''*Tip: Type a number (1-'' @
              str_nat (length (List.map_filter bullet_match (split_nl (content_text body)))) @
              lit '') to select an option*''),
      zip (map str_nat [1..<Suc (length (List.map_filter bullet_match (split_nl (content_text body))))])
          (map snd (List.map_filter bullet_match (split_nl (content_text body)))))"
proof -
  define ls where "ls = split_nl (content_text body)"
  define ms where "ms = List.map_filter bullet_match ls"
  have fl: "format_lines ls 1 [] [] =
     (1 + length ms, zip (map str_nat [1..<1 + length ms]) (map snd ms), numbered 1 ls)"
    using format_lines_eq[of 1 "[]" ls "[]"] by (simp add: ms_def del: upt_Suc)
  have ne: "(zip (map str_nat [1..<Suc (length ms)]) (map snd ms) = []) = (ms = [])"
    by (cases ms) (simp_all add: upt_conv_Cons del: upt_Suc)
  have len: "length (zip (map str_nat [1..<Suc (length ms)]) (map snd ms)) = length ms"
    by (simp del: upt_Suc)
  show ?thesis
    unfolding format_with_numbers_def ls_def[symmetric] ms_def[symmetric]
    using fl ne len by (simp add: Let_def del: upt_Suc)
qed

text \<open>
  C4. \<^verbatim>\<open>_format_with_numbers\<close> splits the text into lines. A line that \<open>bullet_match\<close>
  matches (leading whitespace, a glyph, whitespace, content) becomes
  \<^verbatim>\<open><indent>**<n>.** <content>\<close>, where \<open>n\<close> is one more than the number of matching lines
  before it; every other line is kept as it is. The option map on return holds exactly
  the pairs of \<^verbatim>\<open>str(n)\<close> and the \<open>n\<close>-th matched content, in order, whatever the map was
  on entry. The trailer with the range is appended if and only if some line matched.
\<close>

theorem format_with_numbers_spec:
  "\<exists>out.
    format_with_numbers old_options body =
      (join_nl out @
         (if List.map_filter bullet_match (split_nl (content_text body)) = [] then []
          else [10, 10] @ lit ''*Tip: Type a number (1-'' @
               str_nat (length (List.map_filter bullet_match (split_nl (content_text body)))) @
               lit '') to select an option*''),
       zip (map str_nat [1..<Suc (length (List.map_filter bullet_match (split_nl (content_text body))))])
           (map snd (List.map_filter bullet_match (split_nl (content_text body))))) \<and>
    length out = length (split_nl (content_text body)) \<and>
    (\<forall>i<length (split_nl (content_text body)).
       out ! i =
         (case bullet_match (split_nl (content_text body) ! i) of
            None \<Rightarrow> split_nl (content_text body) ! i
          | Some (indent, c) \<Rightarrow>
              indent @ lit ''**'' @
              str_nat (Suc (length (List.map_filter bullet_match
                                      (take i (split_nl (content_text body)))))) @
              lit ''.** '' @ c))"
  using format_with_numbers_eq[of old_options body]
    numbered_length[of 1 "split_nl (content_text body)"]
    numbered_nth[of _ "split_nl (content_text body)" 1]
  by (intro exI[of _ "numbered 1 (split_nl (content_text body))"])
     (simp del: upt_Suc split: option.splits)

theorem format_with_numbers_witness:
  "\<exists>out.
     format_with_numbers quick_start_options (Str sample_answer) =
       (join_nl out @ [10, 10] @ lit ''*Tip: Type a number (1-2) to select an option*'',
        [(lit ''1'', lit ''Commit the change''), (lit ''2'', lit ''Push the folder'')]) \<and>
     length out = 4 \<and>
     out ! 0 = lit ''Next steps:'' \<and>
     out ! 1 = lit ''**1.** Commit the change'' \<and>
     out ! 2 = lit ''  **2.** Push the folder'' \<and>
     out ! 3 = lit ''Done.''"
proof -
  let ?ls = "split_nl (content_text (Str sample_answer))"
  from format_with_numbers_spec[of quick_start_options "Str sample_answer"]
  obtain out where
    eq: "format_with_numbers quick_start_options (Str sample_answer) =
      (join_nl out @
         (if List.map_filter bullet_match ?ls = [] then []
          else [10, 10] @ lit ''*Tip: Type a number (1-'' @
               str_nat (length (List.map_filter bullet_match ?ls)) @
               lit '') to select an option*''),
       zip (map str_nat [1..<Suc (length (List.map_filter bullet_match ?ls))])
           (map snd (List.map_filter bullet_match ?ls)))"
    and len: "length out = length ?ls"
    and nth: "\<forall>i<length ?ls.
       out ! i =
         (case bullet_match (?ls ! i) of
            None \<Rightarrow> ?ls ! i
          | Some (indent, c) \<Rightarrow>
              indent @ lit ''**'' @
              str_nat (Suc (length (List.map_filter bullet_match (take i ?ls)))) @
              lit ''.** '' @ c)"
    by blast
  note ev = sample_answer_def bullet_match_def lit_def isspace_def is_bullet_glyph_def
  have one: "str_nat (Suc 0) = [49]" and two: "str_nat 2 = [50]"
    by (simp_all add: str_nat.simps)
  have two': "str_nat (Suc (Suc 0)) = [50]" using two by (simp add: numeral_2_eq_2)
  have upt: "[Suc 0..<Suc (Suc (Suc 0))] = [Suc 0, Suc (Suc 0)]"
    by (simp add: upt_conv_Cons del: upt_Suc)
  have e: "format_with_numbers quick_start_options (Str sample_answer) =
       (join_nl out @ [10, 10] @ lit ''*Tip: Type a number (1-2) to select an option*'',
        [(lit ''1'', lit ''Commit the change''), (lit ''2'', lit ''Push the folder'')])"
    using eq by (simp add: ev one two' upt del: upt_Suc)
  have l: "length out = 4" using len by (simp add: ev)
  have n0: "out ! 0 = lit ''Next steps:''"
    using nth[rule_format, of 0] by (simp add: ev)
  have n1: "out ! 1 = lit ''**1.** Commit the change''"
    using nth[rule_format, of 1] by (simp add: ev one)
  have n2: "out ! 2 = lit ''  **2.** Push the folder''"
    using nth[rule_format, of 2] by (simp add: ev two')
  have n3: "out ! 3 = lit ''Done.''"
    using nth[rule_format, of 3] by (simp add: ev)
  from e l n0 n1 n2 n3 show ?thesis by blast
qed

section \<open>The nodes and the routing\<close>

lemma tool_use_AIMessage:
  "tool_use E ts (msgs @ [AIMessage c tcs]) = tool_use_loop E ts tcs []"
  by (cases msgs) (simp_all add: tool_use_def)

lemma tool_use_loop_step:
  "tool_use_loop E ts (tc # rest) acc = Inr out \<Longrightarrow>
   \<exists>c. tool_use_loop E ts rest (acc @ [ToolMessage c (tc_id tc)]) = Inr out"
  by (auto split: option.splits sum.splits raised.splits)

lemma tool_use_loop_Inr:
  "tool_use_loop E ts tcs acc = Inr out \<Longrightarrow> \<exists>rs. out = acc @ rs \<and> list_all2 answers tcs rs"
proof (induction tcs arbitrary: acc)
  case Nil
  then show ?case by simp
next
  case (Cons tc tcs)
  from tool_use_loop_step[OF Cons.prems] obtain r where
    r: "tool_use_loop E ts tcs (acc @ [ToolMessage r (tc_id tc)]) = Inr out" by blast
  define m where "m = ToolMessage r (tc_id tc)"
  have m: "answers tc m" by (simp add: m_def answers_def)
  have step: "tool_use_loop E ts tcs (acc @ [m]) = Inr out" using r by (simp add: m_def)
  from Cons.IH[OF step] obtain rs where "out = (acc @ [m]) @ rs" "list_all2 answers tcs rs"
    by blast
  with m show ?case by (intro exI[of _ "m # rs"]) simp
qed

lemma answers_ids:
  "list_all2 answers tcs rs \<Longrightarrow> map tool_result_id rs = map (\<lambda>tc. Some (tc_id tc)) tcs"
  by (induction rule: list_all2_induct) (auto simp: answers_def)

lemma results_answered: "list_all2 answers tcs rs \<Longrightarrow> answered rs"
proof (induction rule: list_all2_induct)
  case Nil
  then show ?case by simp
next
  case (Cons tc tcs m rs)
  then obtain c i where "m = ToolMessage c i"
    by (cases m) (auto simp: answers_def)
  with Cons show ?case by simp
qed

lemma answered_append: "answered xs \<Longrightarrow> answered ys \<Longrightarrow> answered (xs @ ys)"
proof (induction xs rule: answered.induct)
  case 1
  then show ?case by simp
next
  case (2 c tcs ms)
  then have eq: "map tool_result_id (take (length tcs) ms) = map (\<lambda>tc. Some (tc_id tc)) tcs"
    and rest: "answered ms" by simp_all
  from eq have "length (take (length tcs) ms) = length tcs"
    by (metis length_map)
  then have "length tcs \<le> length ms" by simp
  then have "take (length tcs) (ms @ ys) = take (length tcs) ms" by simp
  with 2 eq rest show ?case by simp
qed simp_all

lemma answered_request:
  "answered pre \<Longrightarrow> list_all2 answers tcs rs \<Longrightarrow> answered (pre @ [AIMessage c tcs] @ rs)"
proof -
  assume pre: "answered pre" and all: "list_all2 answers tcs rs"
  have len: "length rs = length tcs" using all by (simp add: list_all2_lengthD)
  have "answered (AIMessage c tcs # rs)"
    using answers_ids[OF all] results_answered[OF all] len by simp
  with pre show ?thesis using answered_append by fastforce
qed

lemma model_response_update:
  "model_response E opts msgs = Inr (opts', upd) \<Longrightarrow>
   \<exists>ms c tcs. llm_invoke E ms = Inr (c, tcs) \<and> upd = [AIMessage c tcs]"
  by (auto simp: model_response_def split: sum.splits prod.splits)

lemma check_tool_use_AIMessage:
  "check_tool_use (msgs @ [AIMessage c tcs]) = Inr (if tcs \<noteq> [] then tool_use_node else END)"
  by (cases msgs) (simp_all add: check_tool_use_def)

lemma graph_step_model_response:
  "graph_step E ts model_response_node opts msgs = Inr (n', opts', msgs') \<Longrightarrow>
   \<exists>ms c tcs. llm_invoke E ms = Inr (c, tcs) \<and> msgs' = msgs @ [AIMessage c tcs] \<and>
     n' = (if tcs \<noteq> [] then tool_use_node else END)"
proof -
  assume a: "graph_step E ts model_response_node opts msgs = Inr (n', opts', msgs')"
  then obtain o1 upd where mr: "model_response E opts msgs = Inr (o1, upd)"
    by (auto simp: graph_step_def split: sum.splits)
  then obtain ms c tcs where l: "llm_invoke E ms = Inr (c, tcs)" and upd: "upd = [AIMessage c tcs]"
    using model_response_update by blast
  have "msgs' = msgs @ [AIMessage c tcs] \<and> n' = (if tcs \<noteq> [] then tool_use_node else END)"
    using a mr upd
    by (auto simp: graph_step_def next_node_def add_messages_def check_tool_use_AIMessage Let_def
        split: if_splits)
  with l show ?thesis by blast
qed

lemma graph_step_tool_use:
  "graph_step E ts tool_use_node opts msgs = Inr (n', opts', msgs') \<Longrightarrow>
   n' = model_response_node \<and> opts' = opts \<and>
   (\<exists>upd. tool_use E ts msgs = Inr upd \<and> msgs' = msgs @ upd)"
  by (auto simp: graph_step_def next_node_def add_messages_def Let_def split: sum.splits)

lemma graph_loop_answered:
  "graph_loop limit left E ts n opts (base @ added) = Done opts' msgs' \<Longrightarrow> run_inv n added \<Longrightarrow>
   \<exists>added'. msgs' = base @ added' \<and> answered added'"
proof (induction left arbitrary: n opts added)
  case 0
  then show ?case by (cases n) (auto simp: run_inv_def)
next
  case (Suc left)
  show ?case
  proof (cases n)
    case END
    with Suc.prems show ?thesis by (auto simp: run_inv_def)
  next
    case model_response_node
    with Suc.prems(1) obtain n1 o1 m1 where
      st: "graph_step E ts model_response_node opts (base @ added) = Inr (n1, o1, m1)"
      and run: "graph_loop limit left E ts n1 o1 m1 = Done opts' msgs'"
      by (auto split: sum.splits)
    from graph_step_model_response[OF st] obtain c tcs where
      m1: "m1 = base @ (added @ [AIMessage c tcs])"
      and n1: "n1 = (if tcs \<noteq> [] then tool_use_node else END)" by auto
    have ans: "answered added" using Suc.prems(2) model_response_node by (simp add: run_inv_def)
    have "run_inv n1 (added @ [AIMessage c tcs])"
    proof (cases "tcs = []")
      case True
      then show ?thesis using n1 ans answered_append[of added "[AIMessage c []]"]
        by (simp add: run_inv_def)
    next
      case False
      then show ?thesis using n1 ans by (auto simp: run_inv_def)
    qed
    with Suc.IH[of n1 o1 "added @ [AIMessage c tcs]"] run m1 show ?thesis by simp
  next
    case tool_use_node
    with Suc.prems(1) obtain n1 o1 m1 where
      st: "graph_step E ts tool_use_node opts (base @ added) = Inr (n1, o1, m1)"
      and run: "graph_loop limit left E ts n1 o1 m1 = Done opts' msgs'"
      by (auto split: sum.splits)
    from graph_step_tool_use[OF st] obtain upd where
      n1: "n1 = model_response_node" and tu: "tool_use E ts (base @ added) = Inr upd"
      and m1: "m1 = (base @ added) @ upd" by auto
    from Suc.prems(2) tool_use_node obtain pre c tcs where
      added: "added = pre @ [AIMessage c tcs]" and pre: "answered pre"
      by (auto simp: run_inv_def)
    have "tool_use E ts ((base @ pre) @ [AIMessage c tcs]) = Inr upd" using tu added by simp
    then have "tool_use_loop E ts tcs [] = Inr upd" by (simp only: tool_use_AIMessage)
    from tool_use_loop_Inr[OF this] have all: "list_all2 answers tcs upd" by simp
    have "run_inv n1 (added @ upd)"
      using n1 added answered_request[OF pre all, of c] by (simp add: run_inv_def)
    with Suc.IH[of n1 o1 "added @ upd"] run m1 show ?thesis by simp
  qed
qed

text \<open>
  C1. After \<^verbatim>\<open>model_response\<close> the state ends with the \<open>AIMessage\<close> just produced, and
  the next node is \<^verbatim>\<open>tool_use\<close> if and only if that message has a non-empty
  \<^verbatim>\<open>tool_calls\<close>, and \<open>END\<close> otherwise; \<^verbatim>\<open>check_tool_use\<close> decides so on any state
  that ends with an \<open>AIMessage\<close>. After \<^verbatim>\<open>tool_use\<close> the next node is always
  \<^verbatim>\<open>model_response\<close>.
\<close>

theorem routing_after_model_response:
  "(graph_step E ts model_response_node opts msgs = Inr (n', opts', msgs') \<longrightarrow>
      (\<exists>c tcs. msgs' = msgs @ [AIMessage c tcs] \<and>
         (n' = tool_use_node \<longleftrightarrow> tcs \<noteq> []) \<and> (n' = END \<longleftrightarrow> tcs = []))) \<and>
   check_tool_use (msgs @ [AIMessage c0 tcs0]) = Inr (if tcs0 \<noteq> [] then tool_use_node else END) \<and>
   next_node tool_use_node msgs = Inr model_response_node \<and>
   (graph_step E ts tool_use_node opts msgs = Inr (n', opts', msgs') \<longrightarrow> n' = model_response_node)"
proof (intro conjI impI)
  assume "graph_step E ts model_response_node opts msgs = Inr (n', opts', msgs')"
  from graph_step_model_response[OF this] obtain c tcs where
    "msgs' = msgs @ [AIMessage c tcs]" "n' = (if tcs \<noteq> [] then tool_use_node else END)" by blast
  then show "\<exists>c tcs. msgs' = msgs @ [AIMessage c tcs] \<and>
         (n' = tool_use_node \<longleftrightarrow> tcs \<noteq> []) \<and> (n' = END \<longleftrightarrow> tcs = [])"
    by (intro exI[of _ c] exI[of _ tcs]) simp
next
  show "check_tool_use (msgs @ [AIMessage c0 tcs0]) = Inr (if tcs0 \<noteq> [] then tool_use_node else END)"
    by (rule check_tool_use_AIMessage)
next
  show "next_node tool_use_node msgs = Inr model_response_node" by (simp add: next_node_def)
next
  assume "graph_step E ts tool_use_node opts msgs = Inr (n', opts', msgs')"
  then show "n' = model_response_node" using graph_step_tool_use by blast
qed

lemmas eval_defs = graph_step_def model_response_def add_system_message_def force_tool_use_def
  force_tool_words_def lower_def lower_ascii_def lit_def sample_env_def sample_unicode_def
  sample_calls_def next_node_def check_tool_use_def add_messages_def system_message_def
  format_with_numbers_def Let_def tool_use_def call_tool_def read_file_tool_def run_tests_tool_def

theorem routing_after_model_response_witness:
  "graph_step sample_env [read_file_tool, run_tests_tool] model_response_node quick_start_options
      [HumanMessage (lit ''check main.py'')] =
    Inr (tool_use_node, quick_start_options,
         [HumanMessage (lit ''check main.py''), AIMessage (Str []) sample_calls]) \<and>
   (\<exists>c tcs. [HumanMessage (lit ''check main.py''), AIMessage (Str []) sample_calls] =
        [HumanMessage (lit ''check main.py'')] @ [AIMessage c tcs] \<and> tcs \<noteq> []) \<and>
   check_tool_use [HumanMessage (lit ''check main.py''), AIMessage (Str sample_answer) []] = Inr END"
proof -
  have s1: "graph_step sample_env [read_file_tool, run_tests_tool] model_response_node
      quick_start_options [HumanMessage (lit ''check main.py'')] =
    Inr (tool_use_node, quick_start_options,
         [HumanMessage (lit ''check main.py''), AIMessage (Str []) sample_calls])"
    by (simp add: eval_defs)
  from routing_after_model_response[of sample_env "[read_file_tool, run_tests_tool]"
      quick_start_options "[HumanMessage (lit ''check main.py'')]" tool_use_node
      quick_start_options "[HumanMessage (lit ''check main.py''), AIMessage (Str []) sample_calls]"
      "Str sample_answer" "[]"] s1
  show ?thesis by simp
qed

section \<open>Tool results\<close>

lemmas render_defs = markup_error_def lit_def tag_at_def tag_start_def render_tag_def strip_def
  isspace_def closed_tag_def print_raises_def panel_raises_def

lemmas line_defs = executing_line_def arguments_line_def result_title_def error_line_def
  sample_str_of_args_def

lemmas sample_defs = sample_env_def sample_rich_def sample_unicode_def lower_ascii_def
  read_file_tool_def run_tests_tool_def lint_tool_def call_tool_def invoke_and_show_def

lemma loop_raises:
  assumes "find (\<lambda>t. name t = tc_name tc) ts = Some t"
    and "print_raises E (executing_line (tc_name tc)) = None"
    and "print_raises E (arguments_line E (tc_args tc)) = None"
    and "invoke_and_show E t tc = Inl (Exception m)"
    and "print_raises E (error_line (lit ''Tool error: '' @ m)) = Some e"
  shows "tool_use_loop E ts (tc # rest) acc = Inl e"
  using assms by simp

lemma graph_loop_tool_use_raises:
  "tool_use E ts msgs = Inl e \<Longrightarrow>
   graph_loop limit (Suc left) E ts tool_use_node opts msgs = Aborted e opts msgs"
  by (simp add: graph_step_def)

lemma sample_tool_use:
  "tool_use_loop sample_env [read_file_tool, run_tests_tool] sample_calls [] =
     Inr [ToolMessage (lit ''print(1)'') (lit ''call_1''),
          ToolMessage (lit ''Tool deploy not found'') (lit ''call_2''),
          ToolMessage (lit ''Tool error: exit code 1'') (lit ''call_3'')]"
  by (simp add: sample_calls_def render_defs line_defs sample_defs)

lemma sample_run:
  "agent_ainvoke sample_env [read_file_tool, run_tests_tool] config quick_start_options []
      [HumanMessage (lit ''check main.py'')] =
    Done [(lit ''1'', lit ''Commit the change''), (lit ''2'', lit ''Push the folder'')]
      [HumanMessage (lit ''check main.py''), AIMessage (Str []) sample_calls,
       ToolMessage (lit ''print(1)'') (lit ''call_1''),
       ToolMessage (lit ''Tool deploy not found'') (lit ''call_2''),
       ToolMessage (lit ''Tool error: exit code 1'') (lit ''call_3''),
       AIMessage (Str sample_answer) []]"
proof -
  have l: "recursion_limit sample_env config = 25"
    by (simp add: recursion_limit_def config_def lit_def sample_env_def)
  have s1: "graph_step sample_env [read_file_tool, run_tests_tool] model_response_node
      quick_start_options [HumanMessage (lit ''check main.py'')] =
    Inr (tool_use_node, quick_start_options,
         [HumanMessage (lit ''check main.py''), AIMessage (Str []) sample_calls])"
    by (simp add: eval_defs)
  have s2: "graph_step sample_env [read_file_tool, run_tests_tool] tool_use_node
      quick_start_options [HumanMessage (lit ''check main.py''), AIMessage (Str []) sample_calls] =
    Inr (model_response_node, quick_start_options,
         [HumanMessage (lit ''check main.py''), AIMessage (Str []) sample_calls,
          ToolMessage (lit ''print(1)'') (lit ''call_1''),
          ToolMessage (lit ''Tool deploy not found'') (lit ''call_2''),
          ToolMessage (lit ''Tool error: exit code 1'') (lit ''call_3'')])"
    using sample_tool_use
    by (simp add: graph_step_def tool_use_def next_node_def add_messages_def)
  have f: "snd (format_with_numbers quick_start_options (Str sample_answer)) =
      [(lit ''1'', lit ''Commit the change''), (lit ''2'', lit ''Push the folder'')]"
    by (simp add: format_with_numbers_def sample_answer_def bullet_match_def lit_def isspace_def
        is_bullet_glyph_def str_nat.simps)
  have s3: "graph_step sample_env [read_file_tool, run_tests_tool] model_response_node
      quick_start_options
      [HumanMessage (lit ''check main.py''), AIMessage (Str []) sample_calls,
       ToolMessage (lit ''print(1)'') (lit ''call_1''),
       ToolMessage (lit ''Tool deploy not found'') (lit ''call_2''),
       ToolMessage (lit ''Tool error: exit code 1'') (lit ''call_3'')] =
    Inr (END, [(lit ''1'', lit ''Commit the change''), (lit ''2'', lit ''Push the folder'')],
         [HumanMessage (lit ''check main.py''), AIMessage (Str []) sample_calls,
          ToolMessage (lit ''print(1)'') (lit ''call_1''),
          ToolMessage (lit ''Tool deploy not found'') (lit ''call_2''),
          ToolMessage (lit ''Tool error: exit code 1'') (lit ''call_3''),
          AIMessage (Str sample_answer) []])"
    using f
    by (simp add: graph_step_def model_response_def add_system_message_def force_tool_use_def
        force_tool_words_def lower_def lower_ascii_def sample_env_def sample_unicode_def
        next_node_def check_tool_use_def add_messages_def system_message_def
        sample_answer_def lit_def)
  have g: "graph_loop limit (Suc (Suc (Suc left))) sample_env [read_file_tool, run_tests_tool]
      model_response_node quick_start_options [HumanMessage (lit ''check main.py'')] =
    Done [(lit ''1'', lit ''Commit the change''), (lit ''2'', lit ''Push the folder'')]
      [HumanMessage (lit ''check main.py''), AIMessage (Str []) sample_calls,
       ToolMessage (lit ''print(1)'') (lit ''call_1''),
       ToolMessage (lit ''Tool deploy not found'') (lit ''call_2''),
       ToolMessage (lit ''Tool error: exit code 1'') (lit ''call_3''),
       AIMessage (Str sample_answer) []]" for limit left
    by (simp add: s1 s2 s3)
  show ?thesis
    unfolding agent_ainvoke_def l entry_point_def add_messages_def
    using g[of 25 22] by simp
qed

text \<open>
  C2. When \<^verbatim>\<open>tool_use\<close> returns, its update has one tool message for each request of the
  last message, with the ids of the requests in their order; and a run that ends at
  \<open>END\<close> has added only messages whose requests are all answered. But the node does not
  always return: the text of a result is printed as markup, and when neither the panel
  with the result nor the line with the error that the panel raised can be rendered, the
  \<^verbatim>\<open>MarkupError\<close> leaves the node from inside the \<^verbatim>\<open>except\<close> block. Nothing is appended
  then, and the run is over with the request unanswered in the state.
\<close>

theorem tool_results_match_requests:
  "(tool_use E ts (msgs @ [AIMessage c tcs]) = Inr upd \<longrightarrow>
      length upd = length tcs \<and> map tool_result_id upd = map (\<lambda>tc. Some (tc_id tc)) tcs) \<and>
   (agent_ainvoke E ts cfg opts conv [HumanMessage u] = Done opts' msgs' \<longrightarrow>
      (\<exists>added. msgs' = conv @ HumanMessage u # added \<and> answered added)) \<and>
   (find (\<lambda>t. name t = tc_name tc) ts = Some t \<and>
    print_raises E (executing_line (tc_name tc)) = None \<and>
    print_raises E (arguments_line E (tc_args tc)) = None \<and>
    call_tool t (tc_args tc) = Inr result \<and>
    panel_raises E result (result_title (tc_name tc)) = Some (Exception m) \<and>
    print_raises E (error_line (lit ''Tool error: '' @ m)) = Some e \<longrightarrow>
      tool_use E ts (msgs @ [AIMessage c (tc # rest)]) = Inl e \<and>
      graph_loop limit (Suc left) E ts tool_use_node opts (msgs @ [AIMessage c (tc # rest)]) =
        Aborted e opts (msgs @ [AIMessage c (tc # rest)]))"
proof (intro conjI impI)
  assume "tool_use E ts (msgs @ [AIMessage c tcs]) = Inr upd"
  then have "tool_use_loop E ts tcs [] = Inr upd" by (simp only: tool_use_AIMessage)
  from tool_use_loop_Inr[OF this] have all: "list_all2 answers tcs upd" by simp
  show "length upd = length tcs" using all by (simp add: list_all2_lengthD)
  show "map tool_result_id upd = map (\<lambda>tc. Some (tc_id tc)) tcs" using all by (rule answers_ids)
next
  assume d: "agent_ainvoke E ts cfg opts conv [HumanMessage u] = Done opts' msgs'"
  have "run_inv entry_point []" by (simp add: run_inv_def entry_point_def)
  with d graph_loop_answered[of "recursion_limit E cfg" "recursion_limit E cfg" E ts entry_point opts
      "conv @ [HumanMessage u]" "[]" opts' msgs']
  obtain added where "msgs' = (conv @ [HumanMessage u]) @ added" "answered added"
    by (auto simp: agent_ainvoke_def add_messages_def)
  then show "\<exists>added. msgs' = conv @ HumanMessage u # added \<and> answered added" by simp
next
  assume h: "find (\<lambda>t. name t = tc_name tc) ts = Some t \<and>
    print_raises E (executing_line (tc_name tc)) = None \<and>
    print_raises E (arguments_line E (tc_args tc)) = None \<and>
    call_tool t (tc_args tc) = Inr result \<and>
    panel_raises E result (result_title (tc_name tc)) = Some (Exception m) \<and>
    print_raises E (error_line (lit ''Tool error: '' @ m)) = Some e"
  then have i: "invoke_and_show E t tc = Inl (Exception m)" by (simp add: invoke_and_show_def)
  from h have f: "find (\<lambda>t. name t = tc_name tc) ts = Some t"
    and p1: "print_raises E (executing_line (tc_name tc)) = None"
    and p2: "print_raises E (arguments_line E (tc_args tc)) = None"
    and p3: "print_raises E (error_line (lit ''Tool error: '' @ m)) = Some e"
    by blast+
  have "tool_use_loop E ts (tc # rest) [] = Inl e" by (rule loop_raises[OF f p1 p2 i p3])
  then show t: "tool_use E ts (msgs @ [AIMessage c (tc # rest)]) = Inl e"
    by (simp only: tool_use_AIMessage)
  show "graph_loop limit (Suc left) E ts tool_use_node opts (msgs @ [AIMessage c (tc # rest)]) =
        Aborted e opts (msgs @ [AIMessage c (tc # rest)])"
    using t by (rule graph_loop_tool_use_raises)
qed

theorem tool_results_match_requests_witness:
  "tool_use sample_env [read_file_tool, run_tests_tool]
      ([HumanMessage (lit ''check main.py'')] @ [AIMessage (Str []) sample_calls]) =
     Inr [ToolMessage (lit ''print(1)'') (lit ''call_1''),
          ToolMessage (lit ''Tool deploy not found'') (lit ''call_2''),
          ToolMessage (lit ''Tool error: exit code 1'') (lit ''call_3'')] \<and>
   map tool_result_id
     [ToolMessage (lit ''print(1)'') (lit ''call_1''),
      ToolMessage (lit ''Tool deploy not found'') (lit ''call_2''),
      ToolMessage (lit ''Tool error: exit code 1'') (lit ''call_3'')] =
     map (\<lambda>tc. Some (tc_id tc)) sample_calls \<and>
   (\<exists>opts' added.
      agent_ainvoke sample_env [read_file_tool, run_tests_tool] config quick_start_options []
        [HumanMessage (lit ''check main.py'')] =
        Done opts' ([] @ HumanMessage (lit ''check main.py'') # added) \<and> answered added) \<and>
   tool_use sample_env [read_file_tool]
      ([HumanMessage (lit ''read my notes'')] @
       [AIMessage (Str [])
          (ToolCall (lit ''read_file'') [(lit ''path'', lit ''notes.txt'')] (lit ''call_1'') # [])]) =
     Inl (Exception (lit ''closing tag '' @ [39] @ lit ''[/x]'' @ [39] @
                     lit '' at position 35 doesn'' @ [39] @ lit ''t match any open tag'')) \<and>
   graph_loop 25 (Suc 23) sample_env [read_file_tool] tool_use_node []
      ([HumanMessage (lit ''read my notes'')] @
       [AIMessage (Str [])
          (ToolCall (lit ''read_file'') [(lit ''path'', lit ''notes.txt'')] (lit ''call_1'') # [])]) =
     Aborted (Exception (lit ''closing tag '' @ [39] @ lit ''[/x]'' @ [39] @
                         lit '' at position 35 doesn'' @ [39] @ lit ''t match any open tag''))
       []
       ([HumanMessage (lit ''read my notes'')] @
        [AIMessage (Str [])
           (ToolCall (lit ''read_file'') [(lit ''path'', lit ''notes.txt'')] (lit ''call_1'') # [])])"
proof -
  let ?tc = "ToolCall (lit ''read_file'') [(lit ''path'', lit ''notes.txt'')] (lit ''call_1'')"
  let ?m = "lit ''closing tag '' @ [39] @ lit ''[/x]'' @ [39] @
            lit '' at position 4 doesn'' @ [39] @ lit ''t match any open tag''"
  let ?e = "Exception (lit ''closing tag '' @ [39] @ lit ''[/x]'' @ [39] @
                       lit '' at position 35 doesn'' @ [39] @ lit ''t match any open tag'')"
  have p: "tool_use sample_env [read_file_tool, run_tests_tool]
      ([HumanMessage (lit ''check main.py'')] @ [AIMessage (Str []) sample_calls]) =
     Inr [ToolMessage (lit ''print(1)'') (lit ''call_1''),
          ToolMessage (lit ''Tool deploy not found'') (lit ''call_2''),
          ToolMessage (lit ''Tool error: exit code 1'') (lit ''call_3'')]"
    using sample_tool_use by (simp only: tool_use_AIMessage)
  have h1: "find (\<lambda>t. name t = tc_name ?tc) [read_file_tool] = Some read_file_tool"
    by (simp add: read_file_tool_def)
  have h2: "print_raises sample_env (executing_line (tc_name ?tc)) = None"
    by (simp add: render_defs line_defs sample_defs)
  have h3: "print_raises sample_env (arguments_line sample_env (tc_args ?tc)) = None"
    by (simp add: render_defs line_defs sample_defs)
  have h4: "call_tool read_file_tool (tc_args ?tc) = Inr (lit ''see [/x] here'')"
    by (simp add: call_tool_def read_file_tool_def lit_def)
  have h5: "panel_raises sample_env (lit ''see [/x] here'') (result_title (tc_name ?tc)) =
      Some (Exception ?m)"
    by (simp add: render_defs line_defs sample_defs str_nat.simps)
  have h6: "print_raises sample_env (error_line (lit ''Tool error: '' @ ?m)) = Some ?e"
    by (simp add: render_defs line_defs sample_defs str_nat.simps)
  note pos = tool_results_match_requests[where E = sample_env
      and ts = "[read_file_tool, run_tests_tool]"
      and msgs = "[HumanMessage (lit ''check main.py'')]" and c = "Str []" and tcs = sample_calls
      and upd = "[ToolMessage (lit ''print(1)'') (lit ''call_1''),
        ToolMessage (lit ''Tool deploy not found'') (lit ''call_2''),
        ToolMessage (lit ''Tool error: exit code 1'') (lit ''call_3'')]"
      and cfg = config and opts = quick_start_options and conv = "[]"
      and u = "lit ''check main.py''"
      and opts' = "[(lit ''1'', lit ''Commit the change''), (lit ''2'', lit ''Push the folder'')]"
      and msgs' = "[HumanMessage (lit ''check main.py''), AIMessage (Str []) sample_calls,
        ToolMessage (lit ''print(1)'') (lit ''call_1''),
        ToolMessage (lit ''Tool deploy not found'') (lit ''call_2''),
        ToolMessage (lit ''Tool error: exit code 1'') (lit ''call_3''),
        AIMessage (Str sample_answer) []]"]
  note neg = tool_results_match_requests[where E = sample_env and ts = "[read_file_tool]"
      and msgs = "[HumanMessage (lit ''read my notes'')]" and c = "Str []" and opts = "[]"
      and tc = ?tc and t = read_file_tool and result = "lit ''see [/x] here''" and m = ?m
      and e = ?e and rest = "[]" and limit = 25 and left = 23]
  from pos p have a: "map tool_result_id
     [ToolMessage (lit ''print(1)'') (lit ''call_1''),
      ToolMessage (lit ''Tool deploy not found'') (lit ''call_2''),
      ToolMessage (lit ''Tool error: exit code 1'') (lit ''call_3'')] =
     map (\<lambda>tc. Some (tc_id tc)) sample_calls" by blast
  from pos sample_run have b: "\<exists>added.
      [HumanMessage (lit ''check main.py''), AIMessage (Str []) sample_calls,
        ToolMessage (lit ''print(1)'') (lit ''call_1''),
        ToolMessage (lit ''Tool deploy not found'') (lit ''call_2''),
        ToolMessage (lit ''Tool error: exit code 1'') (lit ''call_3''),
        AIMessage (Str sample_answer) []] = [] @ HumanMessage (lit ''check main.py'') # added \<and>
      answered added" by blast
  from neg h1 h2 h3 h4 h5 h6 have c:
    "tool_use sample_env [read_file_tool]
       ([HumanMessage (lit ''read my notes'')] @ [AIMessage (Str []) (?tc # [])]) = Inl ?e \<and>
     graph_loop 25 (Suc 23) sample_env [read_file_tool] tool_use_node []
       ([HumanMessage (lit ''read my notes'')] @ [AIMessage (Str []) (?tc # [])]) =
       Aborted ?e [] ([HumanMessage (lit ''read my notes'')] @ [AIMessage (Str []) (?tc # [])])"
    by blast
  from b sample_run have b': "\<exists>opts' added.
      agent_ainvoke sample_env [read_file_tool, run_tests_tool] config quick_start_options []
        [HumanMessage (lit ''check main.py'')] =
        Done opts' ([] @ HumanMessage (lit ''check main.py'') # added) \<and> answered added"
    by auto
  from p a b' c show ?thesis by blast
qed

text \<open>
  C3. With the two lines at the head of the loop body printed: a request for a tool that
  is not registered gets a tool message that names the tool, with the id of the request,
  and the loop goes on with the next request, provided the line with that error can be
  rendered. A tool whose call raises an \<^verbatim>\<open>Exception\<close> gets a tool message with the text of
  the exception and the loop goes on, when the line with the error can be rendered; when
  it cannot, the \<^verbatim>\<open>MarkupError\<close> is raised inside the \<^verbatim>\<open>except\<close> block and leaves the
  node: no tool message is made, and the requests that follow are not processed.
\<close>

theorem tool_errors_become_results:
  "print_raises E (executing_line (tc_name tc)) = None \<and>
   print_raises E (arguments_line E (tc_args tc)) = None \<longrightarrow>
     (find (\<lambda>t. name t = tc_name tc) ts = None \<and>
      print_raises E (error_line (lit ''Tool '' @ tc_name tc @ lit '' not found'')) = None \<longrightarrow>
        tool_use_loop E ts (tc # rest) acc =
          tool_use_loop E ts rest
            (acc @ [ToolMessage (lit ''Tool '' @ tc_name tc @ lit '' not found'') (tc_id tc)])) \<and>
     (find (\<lambda>t. name t = tc_name tc) ts = Some t \<and>
      call_tool t (tc_args tc) = Inl (Exception e) \<longrightarrow>
        tool_use_loop E ts (tc # rest) acc =
          (case print_raises E (error_line (lit ''Tool error: '' @ e)) of
             None \<Rightarrow>
               tool_use_loop E ts rest
                 (acc @ [ToolMessage (lit ''Tool error: '' @ e) (tc_id tc)])
           | Some e' \<Rightarrow> Inl e'))"
proof (intro impI conjI)
  assume p: "print_raises E (executing_line (tc_name tc)) = None \<and>
    print_raises E (arguments_line E (tc_args tc)) = None"
  assume "find (\<lambda>t. name t = tc_name tc) ts = None \<and>
    print_raises E (error_line (lit ''Tool '' @ tc_name tc @ lit '' not found'')) = None"
  with p show "tool_use_loop E ts (tc # rest) acc =
      tool_use_loop E ts rest
        (acc @ [ToolMessage (lit ''Tool '' @ tc_name tc @ lit '' not found'') (tc_id tc)])"
    by simp
next
  assume p: "print_raises E (executing_line (tc_name tc)) = None \<and>
    print_raises E (arguments_line E (tc_args tc)) = None"
  assume f: "find (\<lambda>t. name t = tc_name tc) ts = Some t \<and>
    call_tool t (tc_args tc) = Inl (Exception e)"
  then have "invoke_and_show E t tc = Inl (Exception e)" by (simp add: invoke_and_show_def)
  with p f show "tool_use_loop E ts (tc # rest) acc =
      (case print_raises E (error_line (lit ''Tool error: '' @ e)) of
         None \<Rightarrow>
           tool_use_loop E ts rest
             (acc @ [ToolMessage (lit ''Tool error: '' @ e) (tc_id tc)])
       | Some e' \<Rightarrow> Inl e')"
    by (simp split: option.splits)
qed

theorem tool_errors_become_results_witness:
  "tool_use_loop sample_env [read_file_tool, lint_tool, run_tests_tool]
      (ToolCall (lit ''deploy'') [] (lit ''call_2'') #
       [ToolCall (lit ''run_tests'') [] (lit ''call_3'')]) [] =
     Inr [ToolMessage (lit ''Tool deploy not found'') (lit ''call_2''),
          ToolMessage (lit ''Tool error: exit code 1'') (lit ''call_3'')] \<and>
   tool_use_loop sample_env [read_file_tool, lint_tool, run_tests_tool]
      (ToolCall (lit ''lint'') [] (lit ''call_1'') #
       [ToolCall (lit ''read_file'') [(lit ''path'', lit ''main.py'')] (lit ''call_2'')]) [] =
     Inl (Exception (lit ''closing tag '' @ [39] @ lit ''[/x]'' @ [39] @
                     lit '' at position 26 doesn'' @ [39] @ lit ''t match any open tag''))"
proof -
  let ?ts = "[read_file_tool, lint_tool, run_tests_tool]"
  let ?deploy = "ToolCall (lit ''deploy'') [] (lit ''call_2'')"
  let ?tests = "ToolCall (lit ''run_tests'') [] (lit ''call_3'')"
  let ?lint = "ToolCall (lit ''lint'') [] (lit ''call_1'')"
  let ?read = "ToolCall (lit ''read_file'') [(lit ''path'', lit ''main.py'')] (lit ''call_2'')"
  have d1: "print_raises sample_env (executing_line (tc_name ?deploy)) = None \<and>
      print_raises sample_env (arguments_line sample_env (tc_args ?deploy)) = None"
    by (simp add: render_defs line_defs sample_defs)
  have d2: "find (\<lambda>t. name t = tc_name ?deploy) ?ts = None \<and>
      print_raises sample_env (error_line (lit ''Tool '' @ tc_name ?deploy @ lit '' not found'')) = None"
    by (simp add: render_defs line_defs sample_defs)
  have t1: "print_raises sample_env (executing_line (tc_name ?tests)) = None \<and>
      print_raises sample_env (arguments_line sample_env (tc_args ?tests)) = None"
    by (simp add: render_defs line_defs sample_defs)
  have t2: "find (\<lambda>t. name t = tc_name ?tests) ?ts = Some run_tests_tool \<and>
      call_tool run_tests_tool (tc_args ?tests) = Inl (Exception (lit ''exit code 1''))"
    by (simp add: sample_defs lit_def)
  have t3: "print_raises sample_env (error_line (lit ''Tool error: '' @ lit ''exit code 1'')) = None"
    by (simp add: render_defs line_defs sample_defs)
  have l1: "print_raises sample_env (executing_line (tc_name ?lint)) = None \<and>
      print_raises sample_env (arguments_line sample_env (tc_args ?lint)) = None"
    by (simp add: render_defs line_defs sample_defs)
  have l2: "find (\<lambda>t. name t = tc_name ?lint) ?ts = Some lint_tool \<and>
      call_tool lint_tool (tc_args ?lint) = Inl (Exception (lit ''bad [/x]''))"
    by (simp add: sample_defs lit_def)
  have l3: "print_raises sample_env (error_line (lit ''Tool error: '' @ lit ''bad [/x]'')) =
      Some (Exception (lit ''closing tag '' @ [39] @ lit ''[/x]'' @ [39] @
                       lit '' at position 26 doesn'' @ [39] @ lit ''t match any open tag''))"
    by (simp add: render_defs line_defs sample_defs str_nat.simps)
  from tool_errors_become_results[where E = sample_env and tc = ?deploy and ts = ?ts
      and rest = "[?tests]" and acc = "[]"] d1 d2
  have a: "tool_use_loop sample_env ?ts (?deploy # [?tests]) [] =
      tool_use_loop sample_env ?ts [?tests]
        ([] @ [ToolMessage (lit ''Tool '' @ tc_name ?deploy @ lit '' not found'') (tc_id ?deploy)])"
    by blast
  from tool_errors_become_results[where E = sample_env and tc = ?tests and ts = ?ts
      and t = run_tests_tool and e = "lit ''exit code 1''" and rest = "[]"
      and acc = "[ToolMessage (lit ''Tool deploy not found'') (lit ''call_2'')]"] t1 t2
  have b: "tool_use_loop sample_env ?ts (?tests # [])
        [ToolMessage (lit ''Tool deploy not found'') (lit ''call_2'')] =
      (case print_raises sample_env (error_line (lit ''Tool error: '' @ lit ''exit code 1'')) of
         None \<Rightarrow>
           tool_use_loop sample_env ?ts []
             ([ToolMessage (lit ''Tool deploy not found'') (lit ''call_2'')] @
              [ToolMessage (lit ''Tool error: '' @ lit ''exit code 1'') (tc_id ?tests)])
       | Some e' \<Rightarrow> Inl e')"
    by blast
  from tool_errors_become_results[where E = sample_env and tc = ?lint and ts = ?ts
      and t = lint_tool and e = "lit ''bad [/x]''" and rest = "[?read]" and acc = "[]"] l1 l2
  have c: "tool_use_loop sample_env ?ts (?lint # [?read]) [] =
      (case print_raises sample_env (error_line (lit ''Tool error: '' @ lit ''bad [/x]'')) of
         None \<Rightarrow>
           tool_use_loop sample_env ?ts [?read]
             ([] @ [ToolMessage (lit ''Tool error: '' @ lit ''bad [/x]'') (tc_id ?lint)])
       | Some e' \<Rightarrow> Inl e')"
    by blast
  have a': "tool_use_loop sample_env ?ts (?deploy # [?tests]) [] =
      Inr [ToolMessage (lit ''Tool deploy not found'') (lit ''call_2''),
           ToolMessage (lit ''Tool error: exit code 1'') (lit ''call_3'')]"
    unfolding a using b unfolding t3 by (simp add: lit_def)
  have c': "tool_use_loop sample_env ?ts (?lint # [?read]) [] =
      Inl (Exception (lit ''closing tag '' @ [39] @ lit ''[/x]'' @ [39] @
                      lit '' at position 26 doesn'' @ [39] @ lit ''t match any open tag''))"
    unfolding c l3 by simp
  from a' c' show ?thesis by blast
qed

section \<open>The session loop\<close>

lemmas text_defs = strip_def isspace_def lit_def lower_def lower_ascii_def isdigit_def
  isdigit_char_def is_command_def

lemma emit_simps [simp]:
  "conversation (emit ev a) = conversation a"
  "last_options (emit ev a) = last_options a"
  "tools (emit ev a) = tools a"
  "mcp_tools (emit ev a) = mcp_tools a"
  "console (emit ev a) = console a @ [ev]"
  by (simp_all add: emit_def)

lemma run_body_Line:
  assumes "strip u \<noteq> []" "\<not> is_command (ucd E) u"
  shows "run_body E a (Line u) =
     (case resolve_option (ucd E) (last_options a) u of
        Some w \<Rightarrow>
          (case print_raises E (lit ''[green]Selected:[/green] '' @ w @ [10]) of
             None \<Rightarrow>
               dispatch E
                 (emit (Print (lit ''[green]Selected:[/green] '' @ w @ [10])) (emit (Print []) a)) w
           | Some e \<Rightarrow> Raise e (emit (Print []) a))
      | None \<Rightarrow> dispatch E (emit (Print []) a) u)"
proof -
  have ne: "u \<noteq> []" using assms(1) by (auto simp: strip_def)
  show ?thesis
    using assms ne
    by (simp add: run_body_def is_command_def Let_def console_print_def
        split: option.splits)
qed

lemma isdigit_ascii:
  "list_all (\<lambda>c. c < 128) s \<Longrightarrow>
   isdigit U s \<longleftrightarrow> s \<noteq> [] \<and> list_all (\<lambda>c. 48 \<le> c \<and> c \<le> 57) s"
  by (induction s) (auto simp: isdigit_def isdigit_char_def)

text \<open>
  C5. The token is the input with the surrounding whitespace stripped. The resolution
  succeeds only if the token passes \<^verbatim>\<open>isdigit\<close> and is a key of the option map, and it does
  succeed then; on an ASCII token \<^verbatim>\<open>isdigit\<close> says that the token is a non-empty string
  of the digits 0 to 9. An input that is not blank, not a command and does not resolve
  reaches the rest of the loop body (the push shortcut and the workflow) unchanged. A
  resolved token is replaced by the text of the option before the rest of the loop body
  sees it when the line that shows the selection can be rendered; that line has the text
  of the option in it as markup, and when it cannot be rendered the \<^verbatim>\<open>MarkupError\<close> is
  raised before the replacement, and nothing is passed on.
\<close>

theorem numeric_option_resolution:
  "(resolve_option U opts u = Some v \<longrightarrow> isdigit U (strip u) \<and> (strip u, v) \<in> set opts) \<and>
   (isdigit U (strip u) \<and> strip u \<in> fst ` set opts \<longrightarrow> (\<exists>w. resolve_option U opts u = Some w)) \<and>
   (list_all (\<lambda>c. c < 128) (strip u) \<longrightarrow>
      (isdigit U (strip u) \<longleftrightarrow> strip u \<noteq> [] \<and> list_all (\<lambda>c. 48 \<le> c \<and> c \<le> 57) (strip u))) \<and>
   (strip u \<noteq> [] \<and> \<not> is_command (ucd E) u \<longrightarrow>
      (resolve_option (ucd E) (last_options a) u = None \<longrightarrow>
         run_body E a (Line u) = dispatch E (emit (Print []) a) u) \<and>
      (\<forall>w. resolve_option (ucd E) (last_options a) u = Some w \<longrightarrow>
         run_body E a (Line u) =
           (case print_raises E (lit ''[green]Selected:[/green] '' @ w @ [10]) of
              None \<Rightarrow>
                dispatch E
                  (emit (Print (lit ''[green]Selected:[/green] '' @ w @ [10])) (emit (Print []) a)) w
            | Some e \<Rightarrow> Raise e (emit (Print []) a))))"
proof (intro conjI impI allI)
  assume "resolve_option U opts u = Some v"
  then show "isdigit U (strip u)" by (simp add: resolve_option_def split: if_splits)
next
  assume "resolve_option U opts u = Some v"
  then show "(strip u, v) \<in> set opts"
    by (auto simp: resolve_option_def split: if_splits dest: map_of_SomeD)
next
  assume "isdigit U (strip u) \<and> strip u \<in> fst ` set opts"
  then show "\<exists>w. resolve_option U opts u = Some w"
    by (auto simp: resolve_option_def weak_map_of_SomeI map_of_eq_None_iff)
next
  assume "list_all (\<lambda>c. c < 128) (strip u)"
  then show "isdigit U (strip u) \<longleftrightarrow> strip u \<noteq> [] \<and> list_all (\<lambda>c. 48 \<le> c \<and> c \<le> 57) (strip u)"
    by (rule isdigit_ascii)
next
  assume "strip u \<noteq> [] \<and> \<not> is_command (ucd E) u"
    and "resolve_option (ucd E) (last_options a) u = None"
  then show "run_body E a (Line u) = dispatch E (emit (Print []) a) u"
    using run_body_Line[of u E a] by simp
next
  fix w
  assume "strip u \<noteq> [] \<and> \<not> is_command (ucd E) u"
    and "resolve_option (ucd E) (last_options a) u = Some w"
  then show "run_body E a (Line u) =
           (case print_raises E (lit ''[green]Selected:[/green] '' @ w @ [10]) of
              None \<Rightarrow>
                dispatch E
                  (emit (Print (lit ''[green]Selected:[/green] '' @ w @ [10])) (emit (Print []) a)) w
            | Some e \<Rightarrow> Raise e (emit (Print []) a))"
    using run_body_Line[of u E a] by simp
qed

theorem numeric_option_resolution_witness:
  "resolve_option sample_unicode quick_start_options (lit ''2'') = Some (lit ''Show available tools'') \<and>
   isdigit sample_unicode (strip (lit ''2'')) \<and>
   (strip (lit ''2''), lit ''Show available tools'') \<in> set quick_start_options \<and>
   run_body sample_env sample_agent (Line (lit ''2'')) =
     dispatch sample_env
       (emit (Print (lit ''[green]Selected:[/green] Show available tools'' @ [10]))
          (emit (Print []) sample_agent))
       (lit ''Show available tools'') \<and>
   resolve_option sample_unicode quick_start_options (lit ''7'') = None \<and>
   run_body sample_env sample_agent (Line (lit ''7'')) =
     dispatch sample_env (emit (Print []) sample_agent) (lit ''7'') \<and>
   resolve_option sample_unicode bracket_options (lit ''1'') = Some (lit ''Clean [/tmp]'') \<and>
   run_body sample_env bracket_agent (Line (lit ''1'')) =
     Raise (Exception (lit ''closing tag '' @ [39] @ lit ''[/tmp]'' @ [39] @
                       lit '' at position 31 doesn'' @ [39] @ lit ''t match any open tag''))
       (emit (Print []) bracket_agent)"
proof -
  have r2: "resolve_option sample_unicode quick_start_options (lit ''2'') =
      Some (lit ''Show available tools'')"
    by (simp add: resolve_option_def quick_start_options_def text_defs)
  have r7: "resolve_option sample_unicode quick_start_options (lit ''7'') = None"
    by (simp add: resolve_option_def quick_start_options_def text_defs)
  have r1: "resolve_option sample_unicode bracket_options (lit ''1'') = Some (lit ''Clean [/tmp]'')"
    by (simp add: resolve_option_def bracket_options_def text_defs)
  have c2: "strip (lit ''2'') \<noteq> [] \<and> \<not> is_command (ucd sample_env) (lit ''2'')"
    by (simp add: text_defs sample_env_def)
  have c7: "strip (lit ''7'') \<noteq> [] \<and> \<not> is_command (ucd sample_env) (lit ''7'')"
    by (simp add: text_defs sample_env_def)
  have c1: "strip (lit ''1'') \<noteq> [] \<and> \<not> is_command (ucd sample_env) (lit ''1'')"
    by (simp add: text_defs sample_env_def)
  have u: "ucd sample_env = sample_unicode" "last_options sample_agent = quick_start_options"
    "last_options bracket_agent = bracket_options"
    by (simp_all add: sample_env_def sample_agent_def bracket_agent_def)
  have p2: "print_raises sample_env
      (lit ''[green]Selected:[/green] '' @ lit ''Show available tools'' @ [10]) = None"
    by (simp add: render_defs sample_defs)
  have p1: "print_raises sample_env (lit ''[green]Selected:[/green] '' @ lit ''Clean [/tmp]'' @ [10]) =
      Some (Exception (lit ''closing tag '' @ [39] @ lit ''[/tmp]'' @ [39] @
                       lit '' at position 31 doesn'' @ [39] @ lit ''t match any open tag''))"
    by (simp add: render_defs sample_defs str_nat.simps)
  note t2 = numeric_option_resolution[of sample_unicode quick_start_options "lit ''2''"
      "lit ''Show available tools'' " sample_env sample_agent]
  note t7 = numeric_option_resolution[of sample_unicode quick_start_options "lit ''7''"
      "lit ''Show available tools'' " sample_env sample_agent]
  note t1 = numeric_option_resolution[of sample_unicode bracket_options "lit ''1''"
      "lit ''Clean [/tmp]'' " sample_env bracket_agent]
  from t2 r2 have a: "isdigit sample_unicode (strip (lit ''2'')) \<and>
     (strip (lit ''2''), lit ''Show available tools'') \<in> set quick_start_options" by blast
  from t2 c2 r2 u p2 have b: "run_body sample_env sample_agent (Line (lit ''2'')) =
     dispatch sample_env
       (emit (Print (lit ''[green]Selected:[/green] '' @ lit ''Show available tools'' @ [10]))
          (emit (Print []) sample_agent))
       (lit ''Show available tools'')" by simp
  from t7 c7 r7 u have c: "run_body sample_env sample_agent (Line (lit ''7'')) =
     dispatch sample_env (emit (Print []) sample_agent) (lit ''7'')" by simp
  from t1 c1 r1 u p1 have d: "run_body sample_env bracket_agent (Line (lit ''1'')) =
     Raise (Exception (lit ''closing tag '' @ [39] @ lit ''[/tmp]'' @ [39] @
                       lit '' at position 31 doesn'' @ [39] @ lit ''t match any open tag''))
       (emit (Print []) bracket_agent)" by simp
  from r2 r7 r1 a b c d show ?thesis by (simp add: lit_def)
qed

lemma handlers_conversation:
  "conversation (agent_of (handlers E (Raise e a))) = conversation a"
  "conversation (agent_of (handlers E (Normal c a))) = conversation a"
proof -
  show "conversation (agent_of (handlers E (Raise e a))) = conversation a"
    by (cases e) (simp_all add: console_print_def goodbye_def split: option.splits)
  show "conversation (agent_of (handlers E (Normal c a))) = conversation a"
    by (cases c) simp_all
qed

lemma print_raises_llm_invoke:
  "print_raises (E\<lparr>llm_invoke := f\<rparr>) markup = print_raises E markup"
  by (simp add: print_raises_def)

lemma panel_raises_llm_invoke:
  "panel_raises (E\<lparr>llm_invoke := f\<rparr>) body title = panel_raises E body title"
  by (simp add: panel_raises_def print_raises_llm_invoke cong: option.case_cong)

lemma console_print_llm_invoke:
  "console_print (E\<lparr>llm_invoke := f\<rparr>) markup a = console_print E markup a"
  "console_print_panel (E\<lparr>llm_invoke := f\<rparr>) body title a = console_print_panel E body title a"
  by (simp_all add: console_print_def console_print_panel_def print_raises_llm_invoke
      panel_raises_llm_invoke)

lemma handlers_llm_invoke: "handlers (E\<lparr>llm_invoke := f\<rparr>) b = handlers E b"
proof (cases b)
  case (Normal c a)
  then show ?thesis by (cases c) simp_all
next
  case (Raise e a)
  then show ?thesis
    by (cases e) (simp_all add: console_print_llm_invoke cong: sum.case_cong)
qed

lemma direct_push_folder_llm_invoke:
  "direct_push_folder (E\<lparr>llm_invoke := f\<rparr>) a w = direct_push_folder E a w"
  by (simp add: direct_push_folder_def folder_path_of_def console_print_llm_invoke Let_def
      cong: sum.case_cong)

lemma direct_push_folder_agent:
  "\<exists>e a'. conversation a' = conversation a \<and>
     (direct_push_folder E a w = Raise e a' \<or> direct_push_folder E a w = Normal Continue a')"
  by (auto simp: direct_push_folder_def Let_def console_print_def console_print_panel_def
      split: option.splits sum.splits)

text \<open>
  C9. For an input that is not blank and not a command, and whose text after the
  resolution has both \<^verbatim>\<open>push\<close> and \<^verbatim>\<open>folder\<close> in lower case: the round of the loop leaves
  the conversation as it was, and it is the same round whatever the model would answer,
  so no graph run takes place. When the lines printed before the call can be rendered
  (the line with the selection, if there was one, and the line with the folder path),
  the round is decided by the result of \<^verbatim>\<open>push_folder\<close> on the owner \<^verbatim>\<open>Abhitheshek\<close>, the
  repository \<^verbatim>\<open>terminalcodeAssistant\<close>, the folder path, the branch \<^verbatim>\<open>main\<close> and the
  fixed commit message. But when the text came from a numbered option and the line with
  the selection cannot be rendered, the \<^verbatim>\<open>MarkupError\<close> is raised before the shortcut is
  reached: the round is the same whatever \<^verbatim>\<open>push_folder\<close> would do, the tool is not
  invoked.
\<close>

theorem push_folder_shortcut:
  assumes "strip u \<noteq> []" and "\<not> is_command (ucd E) u"
    and "wants_push_folder (ucd E) (resolved (ucd E) (last_options a) u)"
  shows "conversation (agent_of (run_iteration E a (Line u))) = conversation a \<and>
     run_iteration (E\<lparr>llm_invoke := f\<rparr>) a (Line u) = run_iteration E a (Line u) \<and>
     ((\<forall>w. resolve_option (ucd E) (last_options a) u = Some w \<longrightarrow>
            print_raises E (lit ''[green]Selected:[/green] '' @ w @ [10]) = None) \<and>
      print_raises E
        (lit ''[dim]Folder: '' @ folder_path_of E (resolved (ucd E) (last_options a) u) @
         lit ''[/dim]'' @ [10]) = None \<longrightarrow>
        (\<exists>a'. conversation a' = conversation a \<and> last_options a' = last_options a \<and>
           run_body E a (Line u) =
             (case push_folder_invoke E
                     [(lit ''owner'', lit ''Abhitheshek''),
                      (lit ''repo'', lit ''terminalcodeAssistant''),
                      (lit ''folder_path'', folder_path_of E (resolved (ucd E) (last_options a) u)),
                      (lit ''branch'', lit ''main''),
                      (lit ''message'', lit ''Upload codeAssistent folder'')] of
                Inl e \<Rightarrow> Raise e a'
              | Inr result \<Rightarrow>
                  (case panel_raises E result (lit ''[bold green]Result[/bold green]'') of
                     Some e \<Rightarrow> Raise e a'
                   | None \<Rightarrow>
                       Normal Continue
                         (emit (Panel result (lit ''[bold green]Result[/bold green]'')) a'))))) \<and>
     (resolve_option (ucd E) (last_options a) u = Some w \<and>
      print_raises E (lit ''[green]Selected:[/green] '' @ w @ [10]) = Some e \<longrightarrow>
        run_body E a (Line u) = Raise e (emit (Print []) a) \<and>
        run_body (E\<lparr>push_folder_invoke := g\<rparr>) a (Line u) = run_body E a (Line u))"
proof (intro conjI impI)
  let ?w = "resolved (ucd E) (last_options a) u"
  let ?E = "E\<lparr>llm_invoke := f\<rparr>"
  define a1 where "a1 = (case resolve_option (ucd E) (last_options a) u of
      Some v \<Rightarrow> emit (Print (lit ''[green]Selected:[/green] '' @ v @ [10])) (emit (Print []) a)
    | None \<Rightarrow> emit (Print []) a)"
  have a1: "conversation a1 = conversation a" "last_options a1 = last_options a"
    by (simp_all add: a1_def split: option.splits)
  have body: "run_body E a (Line u) =
     (case resolve_option (ucd E) (last_options a) u of
        Some v \<Rightarrow>
          (case print_raises E (lit ''[green]Selected:[/green] '' @ v @ [10]) of
             None \<Rightarrow> direct_push_folder E a1 ?w
           | Some e \<Rightarrow> Raise e (emit (Print []) a))
      | None \<Rightarrow> direct_push_folder E a1 ?w)"
    using run_body_Line[OF assms(1,2), of a] assms(3)
    by (simp add: a1_def resolved_def dispatch_def split: option.splits)
  have body': "run_body ?E a (Line u) =
     (case resolve_option (ucd E) (last_options a) u of
        Some v \<Rightarrow>
          (case print_raises E (lit ''[green]Selected:[/green] '' @ v @ [10]) of
             None \<Rightarrow> direct_push_folder ?E a1 ?w
           | Some e \<Rightarrow> Raise e (emit (Print []) a))
      | None \<Rightarrow> direct_push_folder ?E a1 ?w)"
    using run_body_Line[of u ?E a] assms
    by (simp add: a1_def resolved_def dispatch_def print_raises_def split: option.splits)
  show "conversation (agent_of (run_iteration E a (Line u))) = conversation a"
  proof -
    from direct_push_folder_agent[of a1 E ?w] obtain e a' where
      a': "conversation a' = conversation a1"
        "direct_push_folder E a1 ?w = Raise e a' \<or> direct_push_folder E a1 ?w = Normal Continue a'"
      by blast
    then show ?thesis
      unfolding run_iteration_def body
      by (auto simp: handlers_conversation a1 split: option.splits)
  qed
  show "run_iteration ?E a (Line u) = run_iteration E a (Line u)"
    unfolding run_iteration_def body body'
    by (simp add: handlers_llm_invoke direct_push_folder_llm_invoke cong: option.case_cong)
  {
    assume r: "(\<forall>w. resolve_option (ucd E) (last_options a) u = Some w \<longrightarrow>
            print_raises E (lit ''[green]Selected:[/green] '' @ w @ [10]) = None) \<and>
      print_raises E
        (lit ''[dim]Folder: '' @ folder_path_of E ?w @ lit ''[/dim]'' @ [10]) = None"
    define a2 where "a2 =
      emit (Print (lit ''[dim]Folder: '' @ folder_path_of E ?w @ lit ''[/dim]'' @ [10]))
        (emit (Print ([10] @ lit ''[bold yellow]Executing:[/bold yellow] push_folder'')) a1)"
    have a2: "conversation a2 = conversation a" "last_options a2 = last_options a"
      by (simp_all add: a2_def a1)
    have b: "run_body E a (Line u) = direct_push_folder E a1 ?w"
      using r unfolding body by (simp split: option.splits)
    have "run_body E a (Line u) =
             (case push_folder_invoke E
                     [(lit ''owner'', lit ''Abhitheshek''),
                      (lit ''repo'', lit ''terminalcodeAssistant''),
                      (lit ''folder_path'', folder_path_of E ?w),
                      (lit ''branch'', lit ''main''),
                      (lit ''message'', lit ''Upload codeAssistent folder'')] of
                Inl e \<Rightarrow> Raise e a2
              | Inr result \<Rightarrow>
                  (case panel_raises E result (lit ''[bold green]Result[/bold green]'') of
                     Some e \<Rightarrow> Raise e a2
                   | None \<Rightarrow>
                       Normal Continue
                         (emit (Panel result (lit ''[bold green]Result[/bold green]'')) a2)))"
      unfolding b using r
      by (simp add: direct_push_folder_def Let_def console_print_def console_print_panel_def
          push_folder_args_def a2_def split: sum.splits option.splits)
    with a2 show "\<exists>a'. conversation a' = conversation a \<and> last_options a' = last_options a \<and>
           run_body E a (Line u) =
             (case push_folder_invoke E
                     [(lit ''owner'', lit ''Abhitheshek''),
                      (lit ''repo'', lit ''terminalcodeAssistant''),
                      (lit ''folder_path'', folder_path_of E ?w),
                      (lit ''branch'', lit ''main''),
                      (lit ''message'', lit ''Upload codeAssistent folder'')] of
                Inl e \<Rightarrow> Raise e a'
              | Inr result \<Rightarrow>
                  (case panel_raises E result (lit ''[bold green]Result[/bold green]'') of
                     Some e \<Rightarrow> Raise e a'
                   | None \<Rightarrow>
                       Normal Continue
                         (emit (Panel result (lit ''[bold green]Result[/bold green]'')) a')))"
      by blast
  }
  {
    assume r: "resolve_option (ucd E) (last_options a) u = Some w \<and>
      print_raises E (lit ''[green]Selected:[/green] '' @ w @ [10]) = Some e"
    show b: "run_body E a (Line u) = Raise e (emit (Print []) a)"
      using r unfolding body by simp
    let ?G = "E\<lparr>push_folder_invoke := g\<rparr>"
    have e1: "strip u \<noteq> []" "\<not> is_command (ucd ?G) u" using assms by simp_all
    have ro: "resolve_option (ucd ?G) (last_options a) u = Some w" using r by simp
    have rp: "print_raises ?G (lit ''[green]Selected:[/green] '' @ w @ [10]) = Some e"
      using r by (simp add: print_raises_def)
    have "run_body ?G a (Line u) = Raise e (emit (Print []) a)"
      using ro rp by (simp add: run_body_Line[OF e1, of a])
    with b show "run_body (E\<lparr>push_folder_invoke := g\<rparr>) a (Line u) = run_body E a (Line u)"
      by simp
  }
qed

theorem push_folder_shortcut_witness:
  "(\<exists>a'. conversation a' = [] \<and>
      run_body sample_env sample_agent (Line (lit ''Push the tool folder'')) =
        Normal Continue
          (emit (Panel (lit ''Uploaded 3 files'') (lit ''[bold green]Result[/bold green]'')) a')) \<and>
   conversation (agent_of (run_iteration sample_env sample_agent (Line (lit ''Push the tool folder'')))) = [] \<and>
   run_iteration (sample_env\<lparr>llm_invoke := failing_llm\<rparr>) sample_agent
       (Line (lit ''Push the tool folder'')) =
     run_iteration sample_env sample_agent (Line (lit ''Push the tool folder'')) \<and>
   run_body sample_env bracket_agent (Line (lit ''2'')) =
     Raise (Exception (lit ''closing tag '' @ [39] @ lit ''[/tmp]'' @ [39] @
                       lit '' at position 37 doesn'' @ [39] @ lit ''t match any open tag''))
       (emit (Print []) bracket_agent) \<and>
   run_body (sample_env\<lparr>push_folder_invoke := (\<lambda>a. Inl KeyboardInterrupt)\<rparr>) bracket_agent
       (Line (lit ''2'')) =
     run_body sample_env bracket_agent (Line (lit ''2''))"
proof -
  let ?u = "lit ''Push the tool folder''"
  let ?e = "Exception (lit ''closing tag '' @ [39] @ lit ''[/tmp]'' @ [39] @
                       lit '' at position 37 doesn'' @ [39] @ lit ''t match any open tag'')"
  have h1: "strip ?u \<noteq> []" by (simp add: text_defs)
  have h2: "\<not> is_command (ucd sample_env) ?u"
    by (simp add: text_defs sample_env_def sample_unicode_def)
  have ro: "resolve_option (ucd sample_env) (last_options sample_agent) ?u = None"
    by (simp add: resolve_option_def text_defs sample_env_def sample_unicode_def)
  have r: "resolved (ucd sample_env) (last_options sample_agent) ?u = ?u"
    by (simp add: resolved_def ro)
  have h3: "wants_push_folder (ucd sample_env)
     (resolved (ucd sample_env) (last_options sample_agent) ?u)"
    unfolding r by (simp add: wants_push_folder_def text_defs sample_env_def sample_unicode_def)
  have fp: "folder_path_of sample_env ?u = lit ''/work''"
    by (simp add: folder_path_of_def text_defs sample_env_def sample_unicode_def)
  have pf: "print_raises sample_env (lit ''[dim]Folder: '' @ lit ''/work'' @ lit ''[/dim]'' @ [10]) = None"
    by (simp add: render_defs sample_defs)
  have inv: "push_folder_invoke sample_env
      [(lit ''owner'', lit ''Abhitheshek''),
       (lit ''repo'', lit ''terminalcodeAssistant''),
       (lit ''folder_path'', lit ''/work''),
       (lit ''branch'', lit ''main''),
       (lit ''message'', lit ''Upload codeAssistent folder'')] = Inr (lit ''Uploaded 3 files'')"
    by (simp add: sample_env_def)
  have pp: "panel_raises sample_env (lit ''Uploaded 3 files'') (lit ''[bold green]Result[/bold green]'') =
      None"
    by (simp add: render_defs sample_defs)
  have c: "conversation sample_agent = []" by (simp add: sample_agent_def)
  note pos = push_folder_shortcut[OF h1 h2 h3, where f = failing_llm]
  from pos ro pf have "\<exists>a'. conversation a' = conversation sample_agent \<and>
      last_options a' = last_options sample_agent \<and>
      run_body sample_env sample_agent (Line ?u) =
        (case push_folder_invoke sample_env
                [(lit ''owner'', lit ''Abhitheshek''),
                 (lit ''repo'', lit ''terminalcodeAssistant''),
                 (lit ''folder_path'', lit ''/work''),
                 (lit ''branch'', lit ''main''),
                 (lit ''message'', lit ''Upload codeAssistent folder'')] of
           Inl e \<Rightarrow> Raise e a'
         | Inr result \<Rightarrow>
             (case panel_raises sample_env result (lit ''[bold green]Result[/bold green]'') of
                Some e \<Rightarrow> Raise e a'
              | None \<Rightarrow>
                  Normal Continue
                    (emit (Panel result (lit ''[bold green]Result[/bold green]'')) a')))"
    unfolding r fp by simp
  then have a: "\<exists>a'. conversation a' = [] \<and>
      run_body sample_env sample_agent (Line ?u) =
        Normal Continue
          (emit (Panel (lit ''Uploaded 3 files'') (lit ''[bold green]Result[/bold green]'')) a')"
    unfolding inv c by (auto simp: pp)
  from pos c have b: "conversation (agent_of (run_iteration sample_env sample_agent (Line ?u))) = []"
    by simp
  from pos have d: "run_iteration (sample_env\<lparr>llm_invoke := failing_llm\<rparr>) sample_agent (Line ?u) =
     run_iteration sample_env sample_agent (Line ?u)" by blast
  have n1: "strip (lit ''2'') \<noteq> []" by (simp add: text_defs)
  have n2: "\<not> is_command (ucd sample_env) (lit ''2'')"
    by (simp add: text_defs sample_env_def sample_unicode_def)
  have nro: "resolve_option (ucd sample_env) (last_options bracket_agent) (lit ''2'') =
      Some (lit ''Push folder [/tmp]'')"
    by (simp add: resolve_option_def text_defs sample_env_def sample_unicode_def bracket_agent_def
        bracket_options_def)
  have n3: "wants_push_folder (ucd sample_env)
     (resolved (ucd sample_env) (last_options bracket_agent) (lit ''2''))"
    unfolding resolved_def nro
    by (simp add: wants_push_folder_def text_defs sample_env_def sample_unicode_def)
  have np: "print_raises sample_env
      (lit ''[green]Selected:[/green] '' @ lit ''Push folder [/tmp]'' @ [10]) = Some ?e"
    by (simp add: render_defs sample_defs str_nat.simps)
  note neg = push_folder_shortcut[OF n1 n2 n3, where w = "lit ''Push folder [/tmp]''" and e = ?e
      and g = "\<lambda>a. Inl KeyboardInterrupt"]
  from neg nro np have e: "run_body sample_env bracket_agent (Line (lit ''2'')) =
       Raise ?e (emit (Print []) bracket_agent) \<and>
     run_body (sample_env\<lparr>push_folder_invoke := (\<lambda>a. Inl KeyboardInterrupt)\<rparr>) bracket_agent
       (Line (lit ''2'')) = run_body sample_env bracket_agent (Line (lit ''2''))"
    by blast
  from a b d e show ?thesis by blast
qed

subsection \<open>Failed turns\<close>

lemma invoke_workflow_Aborted:
  "agent_ainvoke E (tools a) config (last_options a) (conversation a) [HumanMessage w] =
     Aborted e opts msgs \<Longrightarrow>
   invoke_workflow E a w = Raise e (a\<lparr>last_options := opts, conversation := msgs\<rparr>)"
  by (simp add: invoke_workflow_def Let_def)

text \<open>
  C8. An \<^verbatim>\<open>Exception\<close> of the model call is not caught in the node: it ends the run of the
  graph, and the loop body raises it. When the loop body raises an \<^verbatim>\<open>Exception\<close>, the
  handler prints the line with \<^verbatim>\<open>str(e)\<close> and the line with the traceback, both as
  markup. When both can be rendered, the notice follows and the loop goes on with the
  answers that follow. When one of them cannot, the \<^verbatim>\<open>MarkupError\<close> is raised inside
  the \<^verbatim>\<open>except\<close> block, where nothing catches it: it leaves \<^verbatim>\<open>run\<close>, and the session is
  over.
\<close>

theorem session_loop_survives_exception:
  "(model_response E opts0 msgs0 = Inl x \<longrightarrow>
      graph_loop limit (Suc left) E ts model_response_node opts0 msgs0 = Aborted x opts0 msgs0) \<and>
   (strip u \<noteq> [] \<and> \<not> is_command (ucd E) u \<and>
    resolve_option (ucd E) (last_options a) u = None \<and> \<not> wants_push_folder (ucd E) u \<and>
    agent_ainvoke E (tools a) config (last_options a) (conversation a) [HumanMessage u] =
      Aborted x opts msgs \<longrightarrow>
      run_body E a (Line u) = Raise x ((emit (Print []) a)\<lparr>last_options := opts, conversation := msgs\<rparr>)) \<and>
   (run_body E a answer = Raise (Exception e) a1 \<longrightarrow>
      run_iteration E a answer =
        (case print_raises E (lit ''[bold red]Error: '' @ e @ lit ''[/bold red]'') of
           Some e' \<Rightarrow> Propagate e' a1
         | None \<Rightarrow>
             (case print_raises E (lit ''[dim]'' @ format_exc E (Exception e) @ lit ''[/dim]'') of
                Some e' \<Rightarrow>
                  Propagate e' (emit (Print (lit ''[bold red]Error: '' @ e @ lit ''[/bold red]'')) a1)
              | None \<Rightarrow>
                  Next (emit (Print (lit ''[yellow]Continuing... Type '' @ [39] @ lit ''exit'' @ [39] @
                                     lit '' to quit[/yellow]''))
                       (emit (Print (lit ''[dim]'' @ format_exc E (Exception e) @ lit ''[/dim]''))
                       (emit (Print (lit ''[bold red]Error: '' @ e @ lit ''[/bold red]'')) a1)))))) \<and>
   (run_iteration E a answer = Next a2 \<longrightarrow> run E a (answer # later) = run E a2 later) \<and>
   (run_iteration E a answer = Propagate e' a2 \<longrightarrow> run E a (answer # later) = Crashed e' a2)"
proof (intro conjI impI)
  assume "model_response E opts0 msgs0 = Inl x"
  then show "graph_loop limit (Suc left) E ts model_response_node opts0 msgs0 = Aborted x opts0 msgs0"
    by (simp add: graph_step_def)
next
  assume h: "strip u \<noteq> [] \<and> \<not> is_command (ucd E) u \<and>
    resolve_option (ucd E) (last_options a) u = None \<and> \<not> wants_push_folder (ucd E) u \<and>
    agent_ainvoke E (tools a) config (last_options a) (conversation a) [HumanMessage u] =
      Aborted x opts msgs"
  then have "agent_ainvoke E (tools (emit (Print []) a)) config (last_options (emit (Print []) a))
      (conversation (emit (Print []) a)) [HumanMessage u] = Aborted x opts msgs" by simp
  from invoke_workflow_Aborted[OF this] h
  show "run_body E a (Line u) = Raise x ((emit (Print []) a)\<lparr>last_options := opts, conversation := msgs\<rparr>)"
    using run_body_Line[of u E a] by (simp add: dispatch_def)
next
  assume "run_body E a answer = Raise (Exception e) a1"
  then show "run_iteration E a answer =
        (case print_raises E (lit ''[bold red]Error: '' @ e @ lit ''[/bold red]'') of
           Some e' \<Rightarrow> Propagate e' a1
         | None \<Rightarrow>
             (case print_raises E (lit ''[dim]'' @ format_exc E (Exception e) @ lit ''[/dim]'') of
                Some e' \<Rightarrow>
                  Propagate e' (emit (Print (lit ''[bold red]Error: '' @ e @ lit ''[/bold red]'')) a1)
              | None \<Rightarrow>
                  Next (emit (Print (lit ''[yellow]Continuing... Type '' @ [39] @ lit ''exit'' @ [39] @
                                     lit '' to quit[/yellow]''))
                       (emit (Print (lit ''[dim]'' @ format_exc E (Exception e) @ lit ''[/dim]''))
                       (emit (Print (lit ''[bold red]Error: '' @ e @ lit ''[/bold red]'')) a1)))))"
    by (simp add: run_iteration_def console_print_def continuing_def split: option.splits)
next
  assume "run_iteration E a answer = Next a2"
  then show "run E a (answer # later) = run E a2 later" by simp
next
  assume "run_iteration E a answer = Propagate e' a2"
  then show "run E a (answer # later) = Crashed e' a2" by simp
qed

lemma add_system_message_last:
  "msgs \<noteq> [] \<Longrightarrow> \<exists>ms. add_system_message msgs = Inr ms \<and> ms \<noteq> [] \<and> last ms = last msgs"
proof (cases msgs)
  case Nil
  assume "msgs \<noteq> []"
  with Nil show ?thesis by simp
next
  case (Cons m rest)
  show ?thesis
  proof (cases rest)
    case Nil
    with Cons show ?thesis by (simp add: add_system_message_def)
  next
    case (Cons m' rest')
    with \<open>msgs = m # rest\<close> show ?thesis by (simp add: add_system_message_def)
  qed
qed


lemma model_response_raises:
  assumes "\<And>ms. llm_invoke E ms = Inl x"
  shows "model_response E opts (c @ [HumanMessage u]) = Inl x"
proof -
  from add_system_message_last[of "c @ [HumanMessage u]"] obtain ms where
    ms: "add_system_message (c @ [HumanMessage u]) = Inr ms" "ms \<noteq> []"
      "last ms = HumanMessage u" by auto
  then have "\<exists>ms'. force_tool_use (ucd E) ms = Inr ms'"
    by (simp add: force_tool_use_def)
  then obtain ms' where "force_tool_use (ucd E) ms = Inr ms'" by blast
  with ms(1) assms show ?thesis by (simp add: model_response_def)
qed

theorem session_loop_survives_exception_witness:
  "run_iteration timeout_env sample_agent (Line (lit ''hello'')) =
     Next (emit (Print (lit ''[yellow]Continuing... Type '' @ [39] @ lit ''exit'' @ [39] @
                        lit '' to quit[/yellow]''))
          (emit (Print (lit ''[dim]'' @ lit ''Traceback (most recent call last):'' @ [10] @
                        lit ''Exception: 504 Deadline Exceeded'' @ [10] @ lit ''[/dim]''))
          (emit (Print (lit ''[bold red]Error: 504 Deadline Exceeded[/bold red]''))
             ((emit (Print []) sample_agent)
                \<lparr>last_options := quick_start_options,
                 conversation := [HumanMessage (lit ''hello'')]\<rparr>)))) \<and>
   run_iteration failing_env sample_agent (Line (lit ''hello'')) =
     Propagate (Exception (lit ''closing tag '' @ [39] @ lit ''[/v1/models]'' @ [39] @
                           lit '' at position 36 doesn'' @ [39] @ lit ''t match any open tag''))
       ((emit (Print []) sample_agent)
          \<lparr>last_options := quick_start_options, conversation := [HumanMessage (lit ''hello'')]\<rparr>) \<and>
   run failing_env sample_agent (Line (lit ''hello'') # [Line (lit ''exit'')]) =
     Crashed (Exception (lit ''closing tag '' @ [39] @ lit ''[/v1/models]'' @ [39] @
                         lit '' at position 36 doesn'' @ [39] @ lit ''t match any open tag''))
       ((emit (Print []) sample_agent)
          \<lparr>last_options := quick_start_options, conversation := [HumanMessage (lit ''hello'')]\<rparr>)"
proof -
  let ?u = "lit ''hello''"
  let ?a1 = "(emit (Print []) sample_agent)
       \<lparr>last_options := quick_start_options, conversation := [HumanMessage ?u]\<rparr>"
  let ?m = "Exception (lit ''closing tag '' @ [39] @ lit ''[/v1/models]'' @ [39] @
                       lit '' at position 36 doesn'' @ [39] @ lit ''t match any open tag'')"
  have ut: "ucd timeout_env = sample_unicode" "ucd failing_env = sample_unicode"
    by (simp_all add: timeout_env_def failing_env_def sample_env_def)
  have sa: "tools sample_agent = [read_file_tool, run_tests_tool]"
    "last_options sample_agent = quick_start_options" "conversation sample_agent = []"
    by (simp_all add: sample_agent_def)
  have lim: "recursion_limit timeout_env config = Suc 24" "recursion_limit failing_env config = Suc 24"
    by (simp_all add: recursion_limit_def config_def lit_def timeout_env_def failing_env_def
        sample_env_def)
  have mt: "model_response timeout_env quick_start_options ([] @ [HumanMessage ?u]) =
      Inl (Exception (lit ''504 Deadline Exceeded''))"
    by (rule model_response_raises) (simp add: timeout_env_def timeout_llm_def)
  have mf: "model_response failing_env quick_start_options ([] @ [HumanMessage ?u]) =
      Inl (Exception (lit ''429 quota exceeded [/v1/models]''))"
    by (rule model_response_raises) (simp add: failing_env_def failing_llm_def)
  note tt = session_loop_survives_exception[where E = timeout_env and opts0 = quick_start_options
      and ?msgs0.0 = "[] @ [HumanMessage ?u]" and x = "Exception (lit ''504 Deadline Exceeded'')"
      and limit = "Suc 24" and left = 24 and ts = "[read_file_tool, run_tests_tool]"
      and u = ?u and a = sample_agent and opts = quick_start_options
      and msgs = "[] @ [HumanMessage ?u]" and answer = "Line ?u"
      and e = "lit ''504 Deadline Exceeded''" and ?a1.0 = ?a1]
  note ff = session_loop_survives_exception[where E = failing_env and opts0 = quick_start_options
      and ?msgs0.0 = "[] @ [HumanMessage ?u]" and x = "Exception (lit ''429 quota exceeded [/v1/models]'')"
      and limit = "Suc 24" and left = 24 and ts = "[read_file_tool, run_tests_tool]"
      and u = ?u and a = sample_agent and opts = quick_start_options
      and msgs = "[] @ [HumanMessage ?u]" and answer = "Line ?u"
      and e = "lit ''429 quota exceeded [/v1/models]''" and ?a1.0 = ?a1 and e' = ?m and ?a2.0 = ?a1
      and later = "[Line (lit ''exit'')]"]
  have hy: "strip ?u \<noteq> [] \<and> \<not> is_command sample_unicode ?u \<and>
      resolve_option sample_unicode quick_start_options ?u = None \<and>
      \<not> wants_push_folder sample_unicode ?u"
    by (simp add: text_defs resolve_option_def wants_push_folder_def sample_unicode_def)
  from tt mt have gt: "agent_ainvoke timeout_env (tools sample_agent) config
      (last_options sample_agent) (conversation sample_agent) [HumanMessage ?u] =
      Aborted (Exception (lit ''504 Deadline Exceeded'')) quick_start_options ([] @ [HumanMessage ?u])"
    by (simp add: agent_ainvoke_def lim sa entry_point_def add_messages_def)
  from ff mf have gf: "agent_ainvoke failing_env (tools sample_agent) config
      (last_options sample_agent) (conversation sample_agent) [HumanMessage ?u] =
      Aborted (Exception (lit ''429 quota exceeded [/v1/models]'')) quick_start_options ([] @ [HumanMessage ?u])"
    by (simp add: agent_ainvoke_def lim sa entry_point_def add_messages_def)
  from tt gt hy have bt: "run_body timeout_env sample_agent (Line ?u) =
      Raise (Exception (lit ''504 Deadline Exceeded'')) ?a1"
    by (simp add: ut sa)
  from ff gf hy have bf: "run_body failing_env sample_agent (Line ?u) =
      Raise (Exception (lit ''429 quota exceeded [/v1/models]'')) ?a1"
    by (simp add: ut sa)
  have pt1: "print_raises timeout_env
      (lit ''[bold red]Error: '' @ lit ''504 Deadline Exceeded'' @ lit ''[/bold red]'') = None"
    by (simp add: render_defs sample_defs timeout_env_def)
  have pt2: "print_raises timeout_env
      (lit ''[dim]'' @ format_exc timeout_env (Exception (lit ''504 Deadline Exceeded'')) @
       lit ''[/dim]'') = None"
    by (simp add: render_defs sample_defs timeout_env_def sample_format_exc_def)
  have fe: "format_exc timeout_env (Exception (lit ''504 Deadline Exceeded'')) =
      lit ''Traceback (most recent call last):'' @ [10] @
      lit ''Exception: 504 Deadline Exceeded'' @ [10]"
    by (simp add: timeout_env_def sample_env_def sample_format_exc_def lit_def)
  have pf1: "print_raises failing_env
      (lit ''[bold red]Error: '' @ lit ''429 quota exceeded [/v1/models]'' @ lit ''[/bold red]'') = Some ?m"
    by (simp add: render_defs sample_defs failing_env_def str_nat.simps)
  from tt bt have a: "run_iteration timeout_env sample_agent (Line ?u) =
     Next (emit (Print (lit ''[yellow]Continuing... Type '' @ [39] @ lit ''exit'' @ [39] @
                        lit '' to quit[/yellow]''))
          (emit (Print (lit ''[dim]'' @ format_exc timeout_env (Exception (lit ''504 Deadline Exceeded'')) @
                        lit ''[/dim]''))
          (emit (Print (lit ''[bold red]Error: '' @ lit ''504 Deadline Exceeded'' @ lit ''[/bold red]''))
             ?a1)))"
    by (simp add: pt1 pt2)
  from ff bf have b: "run_iteration failing_env sample_agent (Line ?u) = Propagate ?m ?a1"
    by (simp add: pf1)
  from ff b have c: "run failing_env sample_agent (Line ?u # [Line (lit ''exit'')]) = Crashed ?m ?a1"
    by blast
  from a b c show ?thesis unfolding fe by (simp add: lit_def)
qed

subsection \<open>Start-up\<close>

lemma initialize_last_options:
  "initialize E a0 = Inr a \<Longrightarrow> last_options a = quick_start_options \<and> console a = console a0 \<and>
     conversation a = conversation a0"
  by (auto simp: initialize_def display_quick_start_def split: sum.splits raised.splits if_splits)

lemma initialize_total:
  "mcp_client_get_tools E \<noteq> Inl KeyboardInterrupt \<Longrightarrow>
   mcp_client_get_tools E \<noteq> Inl OtherBaseException \<Longrightarrow> \<exists>a. initialize E a0 = Inr a"
  by (auto simp: initialize_def get_mcp_tools_def split: sum.splits raised.splits option.splits)

lemma quick_start_resolve:
  "map (resolve_option U quick_start_options)
     [lit ''1'', lit ''2'', lit ''3'', lit ''4'', lit ''5''] =
   [Some (lit ''List all files in current directory''),
    Some (lit ''Show available tools''),
    Some (lit ''Run the tests''),
    Some (lit ''Read the README.md file''),
    Some (lit ''Search for code in the project'')]"
  by (simp add: resolve_option_def quick_start_options_def text_defs)

lemma quick_start_keys:
  assumes "(k, v) \<in> set quick_start_options"
  shows "strip k \<noteq> [] \<and> \<not> is_command U k \<and> resolve_option U quick_start_options k = Some v \<and>
         print_raises E (lit ''[green]Selected:[/green] '' @ v @ [10]) = None"
proof -
  from assms consider
      "k = lit ''1''" "v = lit ''List all files in current directory''"
    | "k = lit ''2''" "v = lit ''Show available tools''"
    | "k = lit ''3''" "v = lit ''Run the tests''"
    | "k = lit ''4''" "v = lit ''Read the README.md file''"
    | "k = lit ''5''" "v = lit ''Search for code in the project''"
    unfolding quick_start_options_def by auto
  then show ?thesis
  proof cases
    case 1
    then show ?thesis
      by (simp add: resolve_option_def quick_start_options_def text_defs render_defs)
  next
    case 2
    then show ?thesis
      by (simp add: resolve_option_def quick_start_options_def text_defs render_defs)
  next
    case 3
    then show ?thesis
      by (simp add: resolve_option_def quick_start_options_def text_defs render_defs)
  next
    case 4
    then show ?thesis
      by (simp add: resolve_option_def quick_start_options_def text_defs render_defs)
  next
    case 5
    then show ?thesis
      by (simp add: resolve_option_def quick_start_options_def text_defs render_defs)
  qed
qed

text \<open>
  C10. \<^verbatim>\<open>initialize\<close> on the fresh agent succeeds unless loading the MCP tools raises
  something that is not an \<^verbatim>\<open>Exception\<close>, and it leaves the five quick-start options as the
  option map, with nothing run yet. So the inputs 1 to 5 resolve to the five texts, and in
  the first round of the loop each of them is replaced by its text (the line that shows
  the selection can be rendered for each of the five texts).
\<close>

theorem quick_start_options_preloaded:
  "(mcp_client_get_tools E \<noteq> Inl KeyboardInterrupt \<and>
    mcp_client_get_tools E \<noteq> Inl OtherBaseException \<longrightarrow> (\<exists>a. initialize E (init E) = Inr a)) \<and>
   (initialize E (init E) = Inr a \<longrightarrow>
      last_options a = quick_start_options \<and> console a = [] \<and> conversation a = checkpoint E \<and>
      map (resolve_option (ucd E) (last_options a))
        [lit ''1'', lit ''2'', lit ''3'', lit ''4'', lit ''5''] =
      [Some (lit ''List all files in current directory''),
       Some (lit ''Show available tools''),
       Some (lit ''Run the tests''),
       Some (lit ''Read the README.md file''),
       Some (lit ''Search for code in the project'')] \<and>
      (\<forall>(k, v)\<in>set quick_start_options.
         run_body E a (Line k) =
           dispatch E
             (emit (Print (lit ''[green]Selected:[/green] '' @ v @ [10])) (emit (Print []) a)) v))"
proof (intro conjI impI)
  assume "mcp_client_get_tools E \<noteq> Inl KeyboardInterrupt \<and>
    mcp_client_get_tools E \<noteq> Inl OtherBaseException"
  then show "\<exists>a. initialize E (init E) = Inr a" using initialize_total by blast
next
  assume i: "initialize E (init E) = Inr a"
  from initialize_last_options[OF i]
  have lo: "last_options a = quick_start_options" and co: "console a = []"
    and cv: "conversation a = checkpoint E"
    by (simp_all add: init_def)
  show "last_options a = quick_start_options" by (rule lo)
  show "console a = []" by (rule co)
  show "conversation a = checkpoint E" by (rule cv)
  show "map (resolve_option (ucd E) (last_options a))
        [lit ''1'', lit ''2'', lit ''3'', lit ''4'', lit ''5''] =
      [Some (lit ''List all files in current directory''),
       Some (lit ''Show available tools''),
       Some (lit ''Run the tests''),
       Some (lit ''Read the README.md file''),
       Some (lit ''Search for code in the project'')]"
    unfolding lo by (rule quick_start_resolve)
  show "\<forall>(k, v)\<in>set quick_start_options.
         run_body E a (Line k) =
           dispatch E
             (emit (Print (lit ''[green]Selected:[/green] '' @ v @ [10])) (emit (Print []) a)) v"
  proof (intro ballI, clarify)
    fix k v assume kv: "(k, v) \<in> set quick_start_options"
    from quick_start_keys[OF kv, of "ucd E" E]
    have "strip k \<noteq> []" "\<not> is_command (ucd E) k"
      "resolve_option (ucd E) (last_options a) k = Some v"
      "print_raises E (lit ''[green]Selected:[/green] '' @ v @ [10]) = None"
      by (simp_all add: lo)
    then show "run_body E a (Line k) =
           dispatch E
             (emit (Print (lit ''[green]Selected:[/green] '' @ v @ [10])) (emit (Print []) a)) v"
      using run_body_Line[of k E a] by simp
  qed
qed

theorem quick_start_options_preloaded_witness:
  "initialize sample_env (init sample_env) = Inr sample_agent \<and>
   resolve_option (ucd sample_env) (last_options sample_agent) (lit ''3'') = Some (lit ''Run the tests'') \<and>
   run_body sample_env sample_agent (Line (lit ''3'')) =
     dispatch sample_env
       (emit (Print (lit ''[green]Selected:[/green] Run the tests'' @ [10]))
          (emit (Print []) sample_agent))
       (lit ''Run the tests'')"
proof -
  have i: "initialize sample_env (init sample_env) = Inr sample_agent"
    by (simp add: initialize_def init_def get_mcp_tools_def sample_env_def sample_agent_def
        display_quick_start_def lit_def)
  have m: "(lit ''3'', lit ''Run the tests'') \<in> set quick_start_options"
    by (simp add: quick_start_options_def)
  note t = quick_start_options_preloaded[of sample_env sample_agent, THEN conjunct2, rule_format, OF i]
  from t have "map (resolve_option (ucd sample_env) (last_options sample_agent))
        [lit ''1'', lit ''2'', lit ''3'', lit ''4'', lit ''5''] =
      [Some (lit ''List all files in current directory''),
       Some (lit ''Show available tools''),
       Some (lit ''Run the tests''),
       Some (lit ''Read the README.md file''),
       Some (lit ''Search for code in the project'')]" by blast
  then have r: "resolve_option (ucd sample_env) (last_options sample_agent) (lit ''3'') =
      Some (lit ''Run the tests'')" by simp
  from t have "\<forall>(k, v)\<in>set quick_start_options.
         run_body sample_env sample_agent (Line k) =
           dispatch sample_env
             (emit (Print (lit ''[green]Selected:[/green] '' @ v @ [10]))
                (emit (Print []) sample_agent)) v" by blast
  with m have b: "run_body sample_env sample_agent (Line (lit ''3'')) =
           dispatch sample_env
             (emit (Print (lit ''[green]Selected:[/green] '' @ lit ''Run the tests'' @ [10]))
                (emit (Print []) sample_agent)) (lit ''Run the tests'')" by blast
  from i r b show ?thesis by (simp add: lit_def)
qed

section \<open>The system message\<close>

lemma graph_step_appends:
  "graph_step E ts n opts msgs = Inr (n', opts', msgs') \<Longrightarrow>
   \<exists>upd. msgs' = msgs @ upd \<and> \<not> list_ex is_SystemMessage upd"
proof (cases n)
  case model_response_node
  assume "graph_step E ts n opts msgs = Inr (n', opts', msgs')"
  with model_response_node graph_step_model_response[of E ts opts msgs n' opts' msgs']
  show ?thesis by auto
next
  case tool_use_node
  assume a: "graph_step E ts n opts msgs = Inr (n', opts', msgs')"
  with tool_use_node graph_step_tool_use[of E ts opts msgs n' opts' msgs'] obtain upd where
    u: "tool_use E ts msgs = Inr upd" "msgs' = msgs @ upd" by auto
  then obtain tcs where "tool_use_loop E ts tcs [] = Inr upd"
    by (auto simp: tool_use_def split: list.splits message.splits)
  from tool_use_loop_Inr[OF this] have all: "list_all2 answers tcs upd" by simp
  have "\<not> list_ex is_SystemMessage upd"
  proof
    assume "list_ex is_SystemMessage upd"
    then obtain m where m: "m \<in> set upd" "is_SystemMessage m" by (auto simp: list_ex_iff)
    from m(1) all obtain tc where "answers tc m"
      by (metis in_set_conv_nth list_all2_conv_all_nth)
    with m(2) show False by (cases m) (simp_all add: answers_def)
  qed
  with u show ?thesis by blast
next
  case END
  assume "graph_step E ts n opts msgs = Inr (n', opts', msgs')"
  with END show ?thesis by (auto simp: graph_step_def)
qed

text \<open>
  C6. The graph is entered on the conversation of the thread with the new human message
  at its end, and the nodes only append to it; so the state on an entry to
  \<^verbatim>\<open>model_response\<close> has a human message in it, and the branch for one message is
  taken only for a state that is that one human message. On such a state the list that
  goes to the model has the system message first: in the place of the first message of
  the state if that is a system message, in front of the state otherwise. If the state
  has no system message after its first message, the list has exactly one, also after
  the rewrite of its last message. The steps of the graph keep the state of this form.
\<close>

theorem system_message_first:
  assumes "msgs = conv @ HumanMessage u # added"
    and "\<not> list_ex is_SystemMessage (tl msgs)"
  shows "agent_ainvoke E ts cfg opts conv [HumanMessage u] =
       graph_loop (recursion_limit E cfg) (recursion_limit E cfg) E ts model_response_node opts
         (conv @ HumanMessage u # []) \<and>
     (\<exists>ms. add_system_message msgs = Inr ms \<and> hd ms = system_message \<and>
        ms = (if is_SystemMessage (hd msgs) then system_message # tl msgs
              else system_message # msgs) \<and>
        length (filter is_SystemMessage ms) = 1 \<and>
        (\<forall>ms'. force_tool_use (ucd E) ms = Inr ms' \<longrightarrow>
           hd ms' = system_message \<and> length (filter is_SystemMessage ms') = 1) \<and>
        model_response E opts msgs =
          (case force_tool_use (ucd E) ms of
             Inl e \<Rightarrow> Inl e
           | Inr ms' \<Rightarrow>
               (case llm_invoke E ms' of
                  Inl e \<Rightarrow> Inl e
                | Inr (c, tcs) \<Rightarrow>
                    Inr (if truthy c then snd (format_with_numbers opts c) else opts,
                         [AIMessage c tcs])))) \<and>
     (graph_step E ts n opts msgs = Inr (n', opts', msgs') \<longrightarrow>
        (\<exists>added'. msgs' = conv @ HumanMessage u # added') \<and>
        \<not> list_ex is_SystemMessage (tl msgs'))"
proof (intro conjI)
  show "agent_ainvoke E ts cfg opts conv [HumanMessage u] =
       graph_loop (recursion_limit E cfg) (recursion_limit E cfg) E ts model_response_node opts
         (conv @ HumanMessage u # [])"
    by (simp add: agent_ainvoke_def entry_point_def add_messages_def)
next
  define ms where "ms = (if is_SystemMessage (hd msgs) then system_message # tl msgs
              else system_message # msgs)"
  have ne: "msgs \<noteq> []" using assms(1) by simp
  have single: "length msgs = 1 \<Longrightarrow> \<not> is_SystemMessage (hd msgs)"
  proof -
    assume "length msgs = 1"
    with assms(1) have "msgs = [HumanMessage u]" by (cases conv) simp_all
    then show ?thesis by simp
  qed
  have a: "add_system_message msgs = Inr ms"
  proof (cases "length msgs = 1")
    case True
    with single show ?thesis by (simp add: add_system_message_def ms_def)
  next
    case False
    with ne show ?thesis by (cases msgs) (simp_all add: add_system_message_def ms_def)
  qed
  have sys: "is_SystemMessage system_message" by (simp add: system_message_def)
  have tl_ms: "\<not> list_ex is_SystemMessage (tl ms)"
  proof (cases "is_SystemMessage (hd msgs)")
    case True
    then show ?thesis using assms(2) by (simp add: ms_def)
  next
    case False
    with ne assms(2) show ?thesis by (cases msgs) (simp_all add: ms_def)
  qed
  have hd_ms: "hd ms = system_message" by (simp add: ms_def)
  have ms_ne: "ms \<noteq> []" by (simp add: ms_def)
  have count: "length (filter is_SystemMessage xs) = 1"
    if "xs \<noteq> []" "hd xs = system_message" "\<not> list_ex is_SystemMessage (tl xs)" for xs
    using that sys by (cases xs) (simp_all add: list_ex_iff filter_empty_conv)
  have len2: "2 \<le> length ms"
  proof (cases "is_SystemMessage (hd msgs)")
    case True
    with single ne have "2 \<le> length msgs" by (cases msgs) (auto simp: Suc_le_eq)
    then show ?thesis using True by (simp add: ms_def)
  next
    case False
    with ne show ?thesis by (cases msgs) (simp_all add: ms_def)
  qed
  have force: "hd ms' = system_message \<and> length (filter is_SystemMessage ms') = 1"
    if f: "force_tool_use (ucd E) ms = Inr ms'" for ms'
  proof -
    from f consider "ms' = ms" | s where "ms' = butlast ms @ [HumanMessage s]"
      by (auto simp: force_tool_use_def split: content.splits if_splits)
    then show ?thesis
    proof cases
      case 1
      then show ?thesis using hd_ms count[OF ms_ne hd_ms tl_ms] by simp
    next
      case 2
      obtain x xs where ms: "ms = x # xs" "xs \<noteq> []" using len2 by (cases ms; cases "tl ms") auto
      have x: "x = system_message" using hd_ms ms by simp
      have "\<not> list_ex is_SystemMessage xs" using tl_ms ms by simp
      then have "\<not> list_ex is_SystemMessage (butlast xs)"
        by (auto simp: list_ex_iff dest: in_set_butlastD)
      then have "\<not> list_ex is_SystemMessage (butlast xs @ [HumanMessage s])" by simp
      moreover have "ms' = system_message # butlast xs @ [HumanMessage s]" using 2 ms x by simp
      ultimately show ?thesis using sys by (simp add: list_ex_iff filter_empty_conv)
    qed
  qed
  have mr: "model_response E opts msgs =
          (case force_tool_use (ucd E) ms of
             Inl e \<Rightarrow> Inl e
           | Inr ms' \<Rightarrow>
               (case llm_invoke E ms' of
                  Inl e \<Rightarrow> Inl e
                | Inr (c, tcs) \<Rightarrow>
                    Inr (if truthy c then snd (format_with_numbers opts c) else opts,
                         [AIMessage c tcs])))"
    by (simp add: model_response_def a)
  show "\<exists>ms. add_system_message msgs = Inr ms \<and> hd ms = system_message \<and>
        ms = (if is_SystemMessage (hd msgs) then system_message # tl msgs
              else system_message # msgs) \<and>
        length (filter is_SystemMessage ms) = 1 \<and>
        (\<forall>ms'. force_tool_use (ucd E) ms = Inr ms' \<longrightarrow>
           hd ms' = system_message \<and> length (filter is_SystemMessage ms') = 1) \<and>
        model_response E opts msgs =
          (case force_tool_use (ucd E) ms of
             Inl e \<Rightarrow> Inl e
           | Inr ms' \<Rightarrow>
               (case llm_invoke E ms' of
                  Inl e \<Rightarrow> Inl e
                | Inr (c, tcs) \<Rightarrow>
                    Inr (if truthy c then snd (format_with_numbers opts c) else opts,
                         [AIMessage c tcs])))"
  proof (rule exI[of _ ms], intro conjI)
    show "add_system_message msgs = Inr ms" by (rule a)
    show "hd ms = system_message" by (rule hd_ms)
    show "ms = (if is_SystemMessage (hd msgs) then system_message # tl msgs
              else system_message # msgs)" by (simp only: ms_def)
    show "length (filter is_SystemMessage ms) = 1" by (rule count[OF ms_ne hd_ms tl_ms])
    show "\<forall>ms'. force_tool_use (ucd E) ms = Inr ms' \<longrightarrow>
           hd ms' = system_message \<and> length (filter is_SystemMessage ms') = 1"
      using force by blast
    show "model_response E opts msgs =
          (case force_tool_use (ucd E) ms of
             Inl e \<Rightarrow> Inl e
           | Inr ms' \<Rightarrow>
               (case llm_invoke E ms' of
                  Inl e \<Rightarrow> Inl e
                | Inr (c, tcs) \<Rightarrow>
                    Inr (if truthy c then snd (format_with_numbers opts c) else opts,
                         [AIMessage c tcs])))" by (rule mr)
  qed
next
  show "graph_step E ts n opts msgs = Inr (n', opts', msgs') \<longrightarrow>
        (\<exists>added'. msgs' = conv @ HumanMessage u # added') \<and>
        \<not> list_ex is_SystemMessage (tl msgs')"
  proof
    assume "graph_step E ts n opts msgs = Inr (n', opts', msgs')"
    from graph_step_appends[OF this] obtain upd where
      upd: "msgs' = msgs @ upd" "\<not> list_ex is_SystemMessage upd" by blast
    have ne: "msgs \<noteq> []" using assms(1) by simp
    have "msgs' = conv @ HumanMessage u # (added @ upd)" using upd assms(1) by simp
    moreover have "\<not> list_ex is_SystemMessage (tl msgs')"
      using upd assms(2) ne by (auto simp: list_ex_iff)
    ultimately show "(\<exists>added'. msgs' = conv @ HumanMessage u # added') \<and>
        \<not> list_ex is_SystemMessage (tl msgs')" by blast
  qed
qed

theorem system_message_first_witness:
  "add_system_message ([] @ HumanMessage (lit ''check main.py'') # []) =
     Inr [system_message, HumanMessage (lit ''check main.py'')] \<and>
   add_system_message
     ([SystemMessage (lit ''old instructions'')] @ HumanMessage (lit ''check main.py'') # []) =
     Inr [system_message, HumanMessage (lit ''check main.py'')] \<and>
   length (filter is_SystemMessage [system_message, HumanMessage (lit ''check main.py'')]) = 1"
proof -
  let ?h = "HumanMessage (lit ''check main.py'')"
  let ?old = "SystemMessage (lit ''old instructions'')"
  have h1: "\<not> list_ex is_SystemMessage (tl ([] @ ?h # []))" by simp
  have h2: "\<not> list_ex is_SystemMessage (tl ([?old] @ ?h # []))" by simp
  from system_message_first[OF refl h1, where E = sample_env and opts = "[]"]
  obtain ms where a: "add_system_message ([] @ ?h # []) = Inr ms"
    "ms = (if is_SystemMessage (hd ([] @ ?h # [])) then system_message # tl ([] @ ?h # [])
           else system_message # ([] @ ?h # []))"
    "length (filter is_SystemMessage ms) = 1" by blast
  from system_message_first[OF refl h2, where E = sample_env and opts = "[]"]
  obtain ms2 where b: "add_system_message ([?old] @ ?h # []) = Inr ms2"
    "ms2 = (if is_SystemMessage (hd ([?old] @ ?h # [])) then system_message # tl ([?old] @ ?h # [])
           else system_message # ([?old] @ ?h # []))" by blast
  from a b show ?thesis by simp
qed

section \<open>Runs that do not end by themselves\<close>


















section \<open>The conversation of the thread\<close>

text \<open>
  The nodes append only messages of the model and of the tools to the state, and the
  session loop only human messages: a conversation without a system message stays
  without one, round after round.
\<close>

lemma graph_loop_appends:
  "graph_loop limit left E ts n opts msgs = Done o1 m \<or>
   graph_loop limit left E ts n opts msgs = Aborted e o1 m \<Longrightarrow>
   \<exists>upd. m = msgs @ upd \<and> \<not> list_ex is_SystemMessage upd"
proof (induction left arbitrary: n opts msgs)
  case 0
  then show ?case by (cases n) auto
next
  case (Suc left)
  show ?case
  proof (cases "n = END")
    case True
    with Suc.prems show ?thesis by auto
  next
    case False
    show ?thesis
    proof (cases "graph_step E ts n opts msgs")
      case (Inl x)
      with False Suc.prems show ?thesis by (cases n) auto
    next
      case (Inr r)
      obtain n1 o2 m1 where r: "r = (n1, o2, m1)" by (cases r)
      from graph_step_appends[of E ts n opts msgs n1 o2 m1] Inr r obtain upd where
        upd: "m1 = msgs @ upd" "\<not> list_ex is_SystemMessage upd" by auto
      have "graph_loop limit (Suc left) E ts n opts msgs = graph_loop limit left E ts n1 o2 m1"
        using False Inr r by (cases n) simp_all
      with Suc.prems have "graph_loop limit left E ts n1 o2 m1 = Done o1 m \<or>
          graph_loop limit left E ts n1 o2 m1 = Aborted e o1 m" by simp
      from Suc.IH[OF this] obtain upd' where "m = m1 @ upd'" "\<not> list_ex is_SystemMessage upd'"
        by blast
      with upd show ?thesis by (intro exI[of _ "upd @ upd'"]) simp
    qed
  qed
qed

lemma invoke_workflow_conversation:
  assumes "\<not> list_ex is_SystemMessage (conversation a)"
  shows "\<exists>a'. \<not> list_ex is_SystemMessage (conversation a') \<and>
           (invoke_workflow E a w = Normal Continue a' \<or> (\<exists>e. invoke_workflow E a w = Raise e a'))"
proof (cases "agent_ainvoke E (tools a) config (last_options a) (conversation a) [HumanMessage w]")
  case (Done o1 m)
  then have "\<exists>upd. m = (conversation a @ [HumanMessage w]) @ upd \<and> \<not> list_ex is_SystemMessage upd"
    using graph_loop_appends[of "recursion_limit E config" "recursion_limit E config" E "tools a"
        entry_point "last_options a" "conversation a @ [HumanMessage w]" o1 m]
    by (simp add: agent_ainvoke_def add_messages_def)
  with assms have "\<not> list_ex is_SystemMessage m" by auto
  with Done show ?thesis by (simp add: invoke_workflow_def)
next
  case (Aborted e o1 m)
  then have "\<exists>upd. m = (conversation a @ [HumanMessage w]) @ upd \<and> \<not> list_ex is_SystemMessage upd"
    using graph_loop_appends[of "recursion_limit E config" "recursion_limit E config" E "tools a"
        entry_point "last_options a" "conversation a @ [HumanMessage w]" o1 m e]
    by (simp add: agent_ainvoke_def add_messages_def)
  with assms have "\<not> list_ex is_SystemMessage m" by auto
  with Aborted show ?thesis by (simp add: invoke_workflow_def)
qed

lemma run_body_conversation:
  assumes "\<not> list_ex is_SystemMessage (conversation a)"
  shows "\<exists>a'. \<not> list_ex is_SystemMessage (conversation a') \<and>
           (\<exists>c. run_body E a answer = Normal c a' \<or> (\<exists>e. run_body E a answer = Raise e a'))"
proof -
  have d: "\<exists>a'. \<not> list_ex is_SystemMessage (conversation a') \<and>
           (\<exists>c. dispatch E b w = Normal c a' \<or> (\<exists>e. dispatch E b w = Raise e a'))"
    if "conversation b = conversation a" for b w
  proof (cases "wants_push_folder (ucd E) w")
    case True
    from direct_push_folder_agent[of b E w] obtain e a' where
      "conversation a' = conversation b"
      "direct_push_folder E b w = Raise e a' \<or> direct_push_folder E b w = Normal Continue a'"
      by blast
    with True that assms show ?thesis by (auto simp: dispatch_def)
  next
    case False
    from that assms have "\<not> list_ex is_SystemMessage (conversation b)" by simp
    from invoke_workflow_conversation[OF this, of E w] False show ?thesis
      by (auto simp: dispatch_def)
  qed
  show ?thesis
  proof (cases answer)
    case (Line u)
    have d1: "\<exists>a'. \<not> list_ex is_SystemMessage (conversation a') \<and>
           (\<exists>c. dispatch E (emit (Print []) a) w = Normal c a' \<or>
                (\<exists>e. dispatch E (emit (Print []) a) w = Raise e a'))" for w
      by (rule d) simp
    have d2: "\<exists>a'. \<not> list_ex is_SystemMessage (conversation a') \<and>
           (\<exists>c. dispatch E (emit (Print p) (emit (Print []) a)) w = Normal c a' \<or>
                (\<exists>e. dispatch E (emit (Print p) (emit (Print []) a)) w = Raise e a'))" for w p
      by (rule d) simp
    have e: "\<not> list_ex is_SystemMessage (conversation (emit ev (emit (Print []) a)))"
      "\<not> list_ex is_SystemMessage (conversation (emit (Print []) a))" for ev
      using assms by simp_all
    show ?thesis
      unfolding Line run_body_def Let_def prompt.case
      using d1 d2 e
      by (auto simp: console_print_def display_tools_def split: option.splits list.splits)
  next
    case EOFError
    with assms show ?thesis by (auto simp: run_body_def)
  next
    case PromptInterrupt
    with assms show ?thesis by (auto simp: run_body_def)
  qed
qed

lemma conversation_without_system_message:
  assumes "\<not> list_ex is_SystemMessage (conversation a)"
  shows "\<not> list_ex is_SystemMessage (conversation (agent_of (run_iteration E a answer)))"
proof -
  from run_body_conversation[OF assms, of E answer] obtain a' where
    a': "\<not> list_ex is_SystemMessage (conversation a')"
    "\<exists>c. run_body E a answer = Normal c a' \<or> (\<exists>e. run_body E a answer = Raise e a')" by blast
  then show ?thesis by (auto simp: run_iteration_def handlers_conversation)
qed

end
